theory Spec2Isabelle
  imports Complex_Main "HOL-Library.Char_ord" "HOL-Library.List_Lexorder"
begin

section \<open>Dates, periods and the two period classifiers\<close>

text \<open>
  A JavaScript \<open>Date\<close> is read by the code only through its local getters and built only by
  \<open>new Date(y, m, d, hh, mm, ss, ms)\<close>, so a date is the record of its local wall-clock
  fields (\<open>month\<close> is \<open>getMonth()\<close>, counted from 0). The fields of a \<open>Date\<close> are always
  normalised; \<open>validDate\<close> says so where a proof needs it. The store compares instants
  (\<open>gte\<close>, \<open>lte\<close>); for wall-clock times of one zone without clock changes that is the
  order of the calendar day followed by the time of day, which is \<open>dateLe\<close>.
\<close>

record date =
  year :: int
  month :: nat
  dayOfMonth :: nat
  hours :: nat
  minutes :: nat
  seconds :: nat
  millis :: nat

definition validDate :: "date \<Rightarrow> bool" where
  "validDate d = (hours d < 24 \<and> minutes d < 60 \<and> seconds d < 60 \<and> millis d < 1000)"

definition msOfDay :: "date \<Rightarrow> nat" where
  "msOfDay d = ((hours d * 60 + minutes d) * 60 + seconds d) * 1000 + millis d"

definition sameDay :: "date \<Rightarrow> date \<Rightarrow> bool" where
  "sameDay a b = (year a = year b \<and> month a = month b \<and> dayOfMonth a = dayOfMonth b)"

definition dayLess :: "date \<Rightarrow> date \<Rightarrow> bool" where
  "dayLess a b = (year a < year b \<or> (year a = year b \<and>
     (month a < month b \<or> (month a = month b \<and> dayOfMonth a < dayOfMonth b))))"

definition dateLe :: "date \<Rightarrow> date \<Rightarrow> bool" where
  "dateLe a b = (dayLess a b \<or> (sameDay a b \<and> msOfDay a \<le> msOfDay b))"

definition at_date :: "date \<Rightarrow> nat \<Rightarrow> nat \<Rightarrow> nat \<Rightarrow> nat \<Rightarrow> date" where
  "at_date d hh mm ss ms =
     \<lparr>year = year d, month = month d, dayOfMonth = dayOfMonth d,
      hours = hh, minutes = mm, seconds = ss, millis = ms\<rparr>"

definition startOfDay :: "date \<Rightarrow> date" where
  "startOfDay d =
     \<lparr>year = year d, month = month d, dayOfMonth = dayOfMonth d,
      hours = 0, minutes = 0, seconds = 0, millis = 0\<rparr>"

definition endOfDay :: "date \<Rightarrow> date" where
  "endOfDay d =
     \<lparr>year = year d, month = month d, dayOfMonth = dayOfMonth d,
      hours = 23, minutes = 59, seconds = 59, millis = 999\<rparr>"

datatype period = AFTERNOON | NIGHT

definition EVENING_CUTOFF_MIN :: nat where
  "EVENING_CUTOFF_MIN = 17 * 60 + 30"

subsection \<open>The classifier of the public reservations route (on a Date)\<close>

definition getPeriodFromDate :: "date \<Rightarrow> period" where
  "getPeriodFromDate dt =
     (let mins = hours dt * 60 + minutes dt in
      if mins < 12 * 60 then AFTERNOON
      else if mins \<ge> EVENING_CUTOFF_MIN then NIGHT else AFTERNOON)"

text \<open>\<open>periodWindow\<close> of the route: the pair \<open>(from, to)\<close>.\<close>

definition periodWindowDate :: "date \<Rightarrow> date \<times> date" where
  "periodWindowDate dt =
     (if getPeriodFromDate dt = NIGHT then (at_date dt 17 30 0 0, endOfDay dt)
      else (at_date dt 12 0 0 0, at_date dt 17 29 59 999))"

subsection \<open>The classifier of the areas service (on an HH:mm string)\<close>

text \<open>
  Strings are lists of 8-bit characters. \<open>Number_str\<close> is JavaScript's \<open>Number\<close> on the
  strings the classifier can meet behind \<open>isValidHHmm\<close>: a non-empty string of decimal
  digits is its value; \<open>None\<close> stands for \<open>NaN\<close> and for \<open>undefined\<close>, which
  \<open>(x || 0)\<close> both turn into 0 (as it does the value 0 of the empty string). Signs,
  blanks, exponents and hexadecimal literals are outside this model; no string that
  passes \<open>isValidHHmm\<close> contains them.
\<close>

definition isDigit :: "char \<Rightarrow> bool" where
  "isDigit c = (48 \<le> (of_char c :: nat) \<and> (of_char c :: nat) \<le> 57)"

definition digitVal :: "char \<Rightarrow> nat" where
  "digitVal c = of_char c - 48"

fun splitOn :: "char \<Rightarrow> string \<Rightarrow> string list" where
  "splitOn sep [] = [[]]"
| "splitOn sep (c # cs) =
     (if c = sep then [] # splitOn sep cs
      else (case splitOn sep cs of
              [] \<Rightarrow> [[c]]
            | p # ps \<Rightarrow> (c # p) # ps))"

definition Number_str :: "string \<Rightarrow> nat option" where
  "Number_str s =
     (if s \<noteq> [] \<and> list_all isDigit s
      then Some (foldl (\<lambda>n c. 10 * n + digitVal c) 0 s) else None)"

definition orZero :: "nat option \<Rightarrow> nat" where
  "orZero v = (case v of None \<Rightarrow> 0 | Some n \<Rightarrow> n)"

definition nthOrUndefined :: "nat option list \<Rightarrow> nat \<Rightarrow> nat option" where
  "nthOrUndefined xs i = (if i < length xs then xs ! i else None)"

text \<open>\<open>/^\d{2}:\d{2}$/\<close>, after the test for an absent or empty input.\<close>

definition isValidHHmm :: "string option \<Rightarrow> bool" where
  "isValidHHmm input =
     (case input of
        None \<Rightarrow> False
      | Some s \<Rightarrow>
          (case s of
             [a, b, c, d, e] \<Rightarrow> isDigit a \<and> isDigit b \<and> c = CHR '':'' \<and> isDigit d \<and> isDigit e
           | _ \<Rightarrow> False))"

definition clampToBusinessWindow :: "string \<Rightarrow> period" where
  "clampToBusinessWindow hhmm =
     (let parts = map Number_str (splitOn (CHR '':'') hhmm);
          hh = nthOrUndefined parts 0;
          mm = nthOrUndefined parts 1;
          mins = orZero hh * 60 + orZero mm
      in if mins < 12 * 60 then AFTERNOON
         else if mins \<ge> EVENING_CUTOFF_MIN then NIGHT else AFTERNOON)"

definition getPeriodFromHM :: "string \<Rightarrow> period" where
  "getPeriodFromHM hhmm = clampToBusinessWindow hhmm"

text \<open>\<open>periodWindow\<close> of the areas service: \<open>(from, to, period)\<close>.\<close>

definition periodWindow :: "date \<Rightarrow> string \<Rightarrow> date \<times> date \<times> period" where
  "periodWindow dt hhmm =
     (let period = getPeriodFromHM hhmm in
      if period = NIGHT then (at_date dt 17 30 0 0, endOfDay dt, period)
      else (at_date dt 12 0 0 0, at_date dt 17 29 59 999, period))"

text \<open>
  \<open>toHHmm\<close> of the staff reservations route is \<open>dayjs(d).format('HH:mm')\<close>: hour and minute,
  each padded to two digits (both are below 100 for every Date).
\<close>

definition digitChar :: "nat \<Rightarrow> char" where
  "digitChar n = char_of (48 + n mod 10)"

definition pad2 :: "nat \<Rightarrow> string" where
  "pad2 n = [digitChar (n div 10), digitChar n]"

definition toHHmm :: "date \<Rightarrow> string" where
  "toHHmm d = pad2 (hours d) @ '':'' @ pad2 (minutes d)"


section \<open>The store\<close>

text \<open>
  The relational store is the four tables the engine reads, each a list of rows in the
  order the store returns them. Rows carry the columns the modelled queries read or write.
  \<open>OtherStatus\<close> and \<open>OtherMode\<close> stand for any further value of the two enums.
\<close>

datatype ReservationStatus = AWAITING_CHECKIN | CHECKED_IN | OtherStatus string

datatype ReservationBlockMode = PERIOD | OtherMode string

datatype ReservationBlockPeriod = BLOCK_AFTERNOON | BLOCK_NIGHT | ALL_DAY

record unitRow =
  unit_id :: string
  unit_name :: string
  unit_isActive :: bool

record areaRow =
  area_id :: string
  area_unitId :: string
  area_name :: string
  capacityAfternoon :: "int option"
  capacityNight :: "int option"
  photoUrl :: "string option"
  area_isActive :: bool
  description :: "string option"
  iconEmoji :: "string option"

record reservationRow =
  res_id :: string
  people :: int
  kids :: int
  reservationDate :: date
  unitId :: "string option"
  areaId :: "string option"
  status :: ReservationStatus
  email :: "string option"
  phone :: "string option"
  reservationCode :: "string option"

record blockRow =
  block_unitId :: string
  block_areaId :: "string option"
  block_mode :: ReservationBlockMode
  block_date :: date
  block_period :: ReservationBlockPeriod

record store =
  units :: "unitRow list"
  areas :: "areaRow list"
  reservations :: "reservationRow list"
  blocks :: "blockRow list"

text \<open>JavaScript truthiness of a nullable string: \<open>null\<close>, \<open>undefined\<close> and \<open>''\<close> are falsy.\<close>

definition truthy :: "string option \<Rightarrow> bool" where
  "truthy v = (case v of None \<Rightarrow> False | Some s \<Rightarrow> s \<noteq> [])"

definition orZeroInt :: "int option \<Rightarrow> int" where
  "orZeroInt v = (case v of None \<Rightarrow> 0 | Some n \<Rightarrow> n)"

definition countedStatus :: "ReservationStatus \<Rightarrow> bool" where
  "countedStatus s = (s = AWAITING_CHECKIN \<or> s = CHECKED_IN)"

definition inWindow :: "date \<Rightarrow> date \<Rightarrow> date \<Rightarrow> bool" where
  "inWindow from to d = (dateLe from d \<and> dateLe d to)"

text \<open>
  \<open>prisma.reservation.groupBy({ by: ['areaId'], _sum: { people, kids } })\<close> over the rows
  that passed the \<open>where\<close> clause: one group for each distinct \<open>areaId\<close>, with the two sums.
\<close>

record areaGroup =
  g_areaId :: "string option"
  sum_people :: "int option"
  sum_kids :: "int option"

definition groupByAreaId :: "reservationRow list \<Rightarrow> areaGroup list" where
  "groupByAreaId rows =
     map (\<lambda>k. \<lparr>g_areaId = k,
                sum_people = Some (sum_list (map people (filter (\<lambda>r. areaId r = k) rows))),
                sum_kids = Some (sum_list (map kids (filter (\<lambda>r. areaId r = k) rows)))\<rparr>)
         (remdups (map areaId rows))"

section \<open>The areas service: listByUnitPublic\<close>

subsection \<open>normalizePhotoUrl\<close>

text \<open>
  \<open>trim\<close> removes the ASCII white space; the regular expression
  \<open>/^(https?:)?\/\//i\<close> is \<open>isAbsoluteUrl\<close>. \<open>imagesBase\<close> is
  \<open>process.env.PUBLIC_IMAGES_BASE || process.env.CDN_BASE_URL || ''\<close>.
\<close>

definition isSpace :: "char \<Rightarrow> bool" where
  "isSpace c = ((of_char c :: nat) = 32 \<or> (9 \<le> (of_char c :: nat) \<and> (of_char c :: nat) \<le> 13))"

definition trim :: "string \<Rightarrow> string" where
  "trim s = rev (dropWhile isSpace (rev (dropWhile isSpace s)))"

definition toLowerChar :: "char \<Rightarrow> char" where
  "toLowerChar c =
     (if 65 \<le> (of_char c :: nat) \<and> (of_char c :: nat) \<le> 90
      then char_of ((of_char c :: nat) + 32) else c)"

definition toLowerCase :: "string \<Rightarrow> string" where
  "toLowerCase s = map toLowerChar s"

definition startsWith :: "string \<Rightarrow> string \<Rightarrow> bool" where
  "startsWith s p = (take (length p) s = p)"

definition isAbsoluteUrl :: "string \<Rightarrow> bool" where
  "isAbsoluteUrl v =
     (let l = toLowerCase v in
      startsWith l ''//'' \<or> startsWith l ''http://'' \<or> startsWith l ''https://'')"

definition normalizePhotoUrl :: "string \<Rightarrow> string option \<Rightarrow> string option" where
  "normalizePhotoUrl imagesBase raw =
     (case raw of
        None \<Rightarrow> None
      | Some r \<Rightarrow>
          if r = [] then None
          else let v = trim r in
            if v = [] then None
            else if isAbsoluteUrl v \<or> startsWith v ''data:'' then Some v
            else if imagesBase = [] then Some (if startsWith v ''/'' then v else ''/'' @ v)
            else let b = rev (dropWhile (\<lambda>c. c = CHR ''/'') (rev imagesBase));
                     p = dropWhile (\<lambda>c. c = CHR ''/'') v
                 in Some (b @ ''/'' @ p))"

subsection \<open>The DTO and the queries\<close>

record AreaPublicDTO =
  dto_id :: string
  dto_name :: string
  dto_capacityAfternoon :: "int option"
  dto_capacityNight :: "int option"
  dto_photoUrl :: "string option"
  dto_isActive :: bool
  dto_description :: "string option"
  dto_iconEmoji :: "string option"
  remaining :: "int option"
  available :: "int option"
  isAvailable :: "bool option"

text \<open>
  \<open>prisma.area.findMany({ where: { unitId, isActive: true }, orderBy: { name: 'asc' } })\<close>.
  The order is that of the character codes; the collation of the database is not modelled.
\<close>

definition findActiveAreas :: "store \<Rightarrow> string \<Rightarrow> areaRow list" where
  "findActiveAreas st uid =
     sort_key area_name (filter (\<lambda>a. area_unitId a = uid \<and> area_isActive a) (areas st))"

definition withResolvedPhoto :: "string \<Rightarrow> areaRow \<Rightarrow> AreaPublicDTO" where
  "withResolvedPhoto imagesBase a =
     \<lparr>dto_id = area_id a, dto_name = area_name a,
      dto_capacityAfternoon = capacityAfternoon a, dto_capacityNight = capacityNight a,
      dto_photoUrl = normalizePhotoUrl imagesBase (photoUrl a),
      dto_isActive = area_isActive a,
      dto_description = description a, dto_iconEmoji = iconEmoji a,
      remaining = None, available = None, isAvailable = None\<rparr>"

definition toBlockPeriod :: "period \<Rightarrow> ReservationBlockPeriod" where
  "toBlockPeriod p = (if p = AFTERNOON then BLOCK_AFTERNOON else BLOCK_NIGHT)"

text \<open>The \<open>areaId\<close> column of the blocks found by the two \<open>reservationBlock.findMany\<close>.\<close>

definition findBlocks :: "store \<Rightarrow> string \<Rightarrow> date \<Rightarrow> date \<Rightarrow> ReservationBlockPeriod list \<Rightarrow> string option list" where
  "findBlocks st uid dayStart dayEnd periods =
     map block_areaId
       (filter (\<lambda>b. block_unitId b = uid \<and> block_mode b = PERIOD \<and>
                     dateLe dayStart (block_date b) \<and> dateLe (block_date b) dayEnd \<and>
                     block_period b \<in> set periods)
               (blocks st))"

definition groupedInWindow :: "store \<Rightarrow> date \<Rightarrow> date \<Rightarrow> areaGroup list" where
  "groupedInWindow st from to =
     groupByAreaId
       (filter (\<lambda>r. areaId r \<noteq> None \<and> inWindow from to (reservationDate r) \<and>
                     countedStatus (status r))
               (reservations st))"

text \<open>The loop that fills \<open>usedMap\<close>.\<close>

definition usedMapOf :: "areaGroup list \<Rightarrow> (string \<rightharpoonup> int)" where
  "usedMapOf grouped =
     fold (\<lambda>g m. let used = orZeroInt (sum_people g) + orZeroInt (sum_kids g) in
                  (case g_areaId g of
                     None \<Rightarrow> m
                   | Some k \<Rightarrow> if k \<noteq> [] then m(k \<mapsto> used) else m))
          grouped Map.empty"

definition withAvailability :: "bool \<Rightarrow> string set \<Rightarrow> (string \<rightharpoonup> int) \<Rightarrow> (AreaPublicDTO \<Rightarrow> int) \<Rightarrow> AreaPublicDTO \<Rightarrow> AreaPublicDTO" where
  "withAvailability blockedAll blockedAreas usedMap capOf a =
     (let isBlocked = blockedAll \<or> dto_id a \<in> blockedAreas;
          cap = capOf a;
          used = (case usedMap (dto_id a) of None \<Rightarrow> 0 | Some u \<Rightarrow> u);
          availableBase = max 0 (cap - used);
          avail = (if isBlocked then 0 else availableBase)
      in a\<lparr>remaining := Some avail, available := Some avail, isAvailable := Some (avail > 0)\<rparr>)"

text \<open>
  \<open>listByUnitPublic\<close>. The call \<open>dayjs(dateISO, 'YYYY-MM-DD', true)\<close> belongs to a library, so
  its result is the parameter \<open>parse\<close> (\<open>None\<close> when \<open>isValid()\<close> is false). Which strings
  the library accepts is left to that parameter: the repository never extends dayjs with
  the plugin that reads the format and the strict flag, so nothing here assumes that
  only \<open>YYYY-MM-DD\<close> is accepted. \<open>now\<close> is what \<open>new Date()\<close> returns during the call.
\<close>

definition listByUnitPublic ::
  "(string \<Rightarrow> date option) \<Rightarrow> date \<Rightarrow> string \<Rightarrow> store \<Rightarrow> string \<Rightarrow> string option \<Rightarrow> string option
     \<Rightarrow> AreaPublicDTO list" where
  "listByUnitPublic parse now imagesBase st uid dateISO timeHHmm =
     (if uid = [] then []
      else
        let resolved = map (withResolvedPhoto imagesBase) (findActiveAreas st uid) in
        if \<not> truthy dateISO then resolved
        else
          let base = (case parse (case dateISO of Some d \<Rightarrow> d | None \<Rightarrow> []) of
                        Some p \<Rightarrow> p | None \<Rightarrow> now) in
          if truthy timeHHmm then
            let safeTime = (if isValidHHmm timeHHmm
                            then (case timeHHmm of Some t \<Rightarrow> t | None \<Rightarrow> ''12:00'')
                            else ''12:00'');
                (from, to, currentPeriod) = periodWindow base safeTime;
                dayStart = startOfDay base;
                dayEnd = endOfDay base;
                blks = findBlocks st uid dayStart dayEnd
                         [ALL_DAY, if currentPeriod = AFTERNOON then BLOCK_AFTERNOON else BLOCK_NIGHT];
                blockedAll = list_ex (\<lambda>b. \<not> truthy b) blks;
                blockedAreas = set (concat (map (\<lambda>b. case b of Some k \<Rightarrow> [k] | None \<Rightarrow> [])
                                                 (filter truthy blks)));
                usedMap = usedMapOf (groupedInWindow st from to)
            in map (withAvailability blockedAll blockedAreas usedMap
                      (\<lambda>a. if currentPeriod = AFTERNOON
                            then orZeroInt (dto_capacityAfternoon a)
                            else orZeroInt (dto_capacityNight a)))
                   resolved
          else
            let from = startOfDay base;
                to = endOfDay base;
                dayBlocks = findBlocks st uid from to [ALL_DAY];
                blockedAllDayAll = list_ex (\<lambda>b. \<not> truthy b) dayBlocks;
                blockedAllDayAreas = set (concat (map (\<lambda>b. case b of Some k \<Rightarrow> [k] | None \<Rightarrow> [])
                                                       (filter truthy dayBlocks)));
                usedMap = usedMapOf (groupedInWindow st from to)
            in map (withAvailability blockedAllDayAll blockedAllDayAreas usedMap
                      (\<lambda>a. orZeroInt (dto_capacityAfternoon a) + orZeroInt (dto_capacityNight a)))
                   resolved)"


subsection \<open>What the availability figures mean\<close>

text \<open>
  The definitions of this subsection follow the specification's words, not the code:
  the demand that counts, the qualifying block, and the remaining seats of an area.
\<close>

definition usedSpec :: "store \<Rightarrow> string \<Rightarrow> date \<Rightarrow> date \<Rightarrow> int" where
  "usedSpec st a from to =
     (\<Sum>r\<leftarrow>filter (\<lambda>r. areaId r = Some a \<and>
                      (status r = AWAITING_CHECKIN \<or> status r = CHECKED_IN) \<and>
                      dateLe from (reservationDate r) \<and> dateLe (reservationDate r) to)
                (reservations st). people r + kids r)"

definition blockedSpec :: "store \<Rightarrow> string \<Rightarrow> string \<Rightarrow> date \<Rightarrow> ReservationBlockPeriod set \<Rightarrow> bool" where
  "blockedSpec st uid a day periods =
     (\<exists>b \<in> set (blocks st).
        block_unitId b = uid \<and> block_mode b = PERIOD \<and>
        dateLe (startOfDay day) (block_date b) \<and> dateLe (block_date b) (endOfDay day) \<and>
        block_period b \<in> periods \<and>
        (block_areaId b = None \<or> block_areaId b = Some a))"

definition remainingSpec :: "bool \<Rightarrow> int \<Rightarrow> int \<Rightarrow> int" where
  "remainingSpec blocked capacity used = (if blocked then 0 else max 0 (capacity - used))"

section \<open>Date strings of the staff route\<close>

text \<open>
  \<open>toYMD\<close> is \<open>dayjs(d).format('YYYY-MM-DD')\<close>, for the years 0 to 9999.
\<close>

definition pad4 :: "nat \<Rightarrow> string" where
  "pad4 n = [digitChar (n div 1000), digitChar (n div 100), digitChar (n div 10), digitChar n]"

definition toYMD :: "date \<Rightarrow> string" where
  "toYMD d = pad4 (nat (year d)) @ ''-'' @ pad2 (month d + 1) @ ''-'' @ pad2 (dayOfMonth d)"

section \<open>The reservation code generator\<close>

text \<open>
  \<open>Math.random\<close> is the sequence \<open>rnd\<close> of the numbers it returns, read from position 0
  on. \<open>pick\<close> is \<open>base[Math.floor(Math.random() * base.length)]\<close> appended to a string; an
  index outside the alphabet would append \<open>undefined\<close>. The result records, beside the
  code, how many \<open>findUnique\<close> look-ups and how many draws were made.
\<close>

definition codeAlphabet :: string where
  "codeAlphabet = ''ABCDEFGHJKLMNPQRSTUVWXYZ23456789''"

definition pick :: "real \<Rightarrow> string" where
  "pick r =
     (let i = \<lfloor>r * real (length codeAlphabet)\<rfloor> in
      if 0 \<le> i \<and> i < int (length codeAlphabet) then [codeAlphabet ! nat i] else ''undefined'')"

definition genCode6 :: "(nat \<Rightarrow> real) \<Rightarrow> nat \<Rightarrow> string" where
  "genCode6 rnd pos = concat (map (\<lambda>i. pick (rnd (pos + i))) [0..<6])"

definition codeExists :: "store \<Rightarrow> string \<Rightarrow> bool" where
  "codeExists st c = list_ex (\<lambda>r. reservationCode r = Some c) (reservations st)"

record codeResult =
  code :: string
  lookups :: nat
  draws :: nat

function generateFrom :: "(nat \<Rightarrow> real) \<Rightarrow> store \<Rightarrow> nat \<Rightarrow> codeResult" where
  "generateFrom rnd st i =
     (if i < 8 then
        (let c = genCode6 rnd (6 * i) in
         if \<not> codeExists st c then \<lparr>code = c, lookups = i + 1, draws = 6 * (i + 1)\<rparr>
         else generateFrom rnd st (i + 1))
      else \<lparr>code = genCode6 rnd (6 * i), lookups = i, draws = 6 * (i + 1)\<rparr>)"
  by pat_completeness auto
termination
  by (relation "measure (\<lambda>(rnd, st, i). 8 - i)") auto

definition generateUniqueReservationCode :: "(nat \<Rightarrow> real) \<Rightarrow> store \<Rightarrow> codeResult" where
  "generateUniqueReservationCode rnd st = generateFrom rnd st 0"

section \<open>The public route: POST /v1/reservations/public\<close>

datatype apiError =
    VALIDATION
  | ALREADY_HAS_ACTIVE_RESERVATION
  | UNIT_NOT_FOUND
  | AREA_NOT_FOUND
  | BLOCKED_DAY
  | NO_CAPACITY int period
  | AREA_NO_CAPACITY int int

text \<open>
  The body of the request, after JSON decoding: the fields the checks read. \<open>people\<close> and
  \<open>kids\<close> are integers (\<open>None\<close> when absent); \<open>body_reservationDate\<close> is \<open>None\<close> when the
  field is absent or \<open>dayjs\<close> finds it invalid, and the parsed \<open>Date\<close> otherwise.
\<close>

record publicBody =
  fullName :: string
  body_people :: "int option"
  body_kids :: "int option"
  body_reservationDate :: "date option"
  body_email :: "string option"
  body_phone :: "string option"
  body_unitId :: "string option"
  body_areaId :: "string option"

definition toLowerEmail :: "string option \<Rightarrow> string option" where
  "toLowerEmail v =
     (let s = toLowerCase (trim (case v of None \<Rightarrow> [] | Some x \<Rightarrow> x)) in
      if s = [] then None else Some s)"

definition normPhone :: "string option \<Rightarrow> string option" where
  "normPhone v = (case v of None \<Rightarrow> None
                  | Some p \<Rightarrow> if p = [] then None else Some (filter isDigit p))"

text \<open>What the checks hand to the insert once they have all passed.\<close>

record admission =
  adm_people :: int
  adm_kids :: int
  adm_date :: date
  adm_unitId :: string
  adm_areaId :: string
  adm_email :: "string option"
  adm_phone :: "string option"

text \<open>
  \<open>postCheck\<close> is the handler from its first line to the capacity test (every read of the
  store, no write), in the order of the source.
\<close>

definition postCheck :: "store \<Rightarrow> publicBody \<Rightarrow> apiError + admission" where
  "postCheck st b =
     (let peopleNum = orZeroInt (body_people b);
          kidsNum = orZeroInt (body_kids b)
      in
      if fullName b = [] \<or> length (trim (fullName b)) < 3 then Inl VALIDATION
      else if peopleNum = 0 \<or> peopleNum < 1 then Inl VALIDATION
      else if \<not> truthy (body_unitId b) then Inl VALIDATION
      else if \<not> truthy (body_areaId b) then Inl VALIDATION
      else
        (case body_reservationDate b of
           None \<Rightarrow> Inl VALIDATION
         | Some dt \<Rightarrow>
            let emailNorm = toLowerEmail (body_email b);
                phoneNorm = normPhone (body_phone b)
            in
            if (truthy emailNorm \<or> truthy phoneNorm) \<and>
               list_ex (\<lambda>r. status r = AWAITING_CHECKIN \<and>
                             ((truthy emailNorm \<and> email r = emailNorm) \<or>
                              (truthy phoneNorm \<and> phone r = phoneNorm)))
                       (reservations st)
            then Inl ALREADY_HAS_ACTIVE_RESERVATION
            else
              (case find (\<lambda>u. Some (unit_id u) = body_unitId b) (units st) of
                 None \<Rightarrow> Inl UNIT_NOT_FOUND
               | Some u \<Rightarrow>
                  if \<not> unit_isActive u then Inl UNIT_NOT_FOUND
                  else
                    (case find (\<lambda>a. Some (area_id a) = body_areaId b) (areas st) of
                       None \<Rightarrow> Inl AREA_NOT_FOUND
                     | Some a \<Rightarrow>
                        if \<not> area_isActive a \<or> area_unitId a \<noteq> unit_id u then Inl AREA_NOT_FOUND
                        else
                          let dayStart = startOfDay dt;
                              dayEnd = endOfDay dt;
                              currentPeriod = (if getPeriodFromDate dt = AFTERNOON
                                               then BLOCK_AFTERNOON else BLOCK_NIGHT);
                              blks = filter (\<lambda>k. block_unitId k = unit_id u \<and> block_mode k = PERIOD \<and>
                                                  dateLe dayStart (block_date k) \<and>
                                                  dateLe (block_date k) dayEnd \<and>
                                                  block_period k \<in> set [ALL_DAY, currentPeriod] \<and>
                                                  (block_areaId k = None \<or>
                                                   block_areaId k = Some (area_id a)))
                                            (blocks st)
                          in
                          if length blks > 0 then Inl BLOCKED_DAY
                          else
                            let (from, to) = periodWindowDate dt;
                                maxPeriod = (if getPeriodFromDate dt = AFTERNOON
                                             then orZeroInt (capacityAfternoon a)
                                             else orZeroInt (capacityNight a));
                                grouped = groupByAreaId
                                  (filter (\<lambda>r. areaId r = Some (area_id a) \<and>
                                                inWindow from to (reservationDate r) \<and>
                                                countedStatus (status r))
                                          (reservations st));
                                alreadyUsed = (case grouped of
                                                 [] \<Rightarrow> 0
                                               | g # _ \<Rightarrow> orZeroInt (sum_people g) + orZeroInt (sum_kids g));
                                willUse = max 0 peopleNum + max 0 kidsNum;
                                remainingSeats = max 0 (maxPeriod - alreadyUsed)
                            in
                            if willUse > remainingSeats
                            then Inl (NO_CAPACITY remainingSeats (getPeriodFromDate dt))
                            else Inr \<lparr>adm_people = max 0 peopleNum, adm_kids = max 0 kidsNum,
                                      adm_date = dt, adm_unitId = unit_id u, adm_areaId = area_id a,
                                      adm_email = emailNorm, adm_phone = phoneNorm\<rparr>))))"

text \<open>
  The rest of the handler: the reservation code and \<open>prisma.reservation.create\<close>. \<open>newId\<close>
  is the identifier the store assigns to the row.
\<close>

definition createReservation :: "string \<Rightarrow> (nat \<Rightarrow> real) \<Rightarrow> store \<Rightarrow> admission \<Rightarrow> reservationRow" where
  "createReservation newId rnd st adm =
     \<lparr>res_id = newId, people = adm_people adm, kids = adm_kids adm,
      reservationDate = adm_date adm,
      unitId = Some (adm_unitId adm), areaId = Some (adm_areaId adm),
      status = AWAITING_CHECKIN, email = adm_email adm, phone = adm_phone adm,
      reservationCode = Some (code (generateUniqueReservationCode rnd st))\<rparr>"

definition insertReservation :: "reservationRow \<Rightarrow> store \<Rightarrow> store" where
  "insertReservation row st = st\<lparr>reservations := reservations st @ [row]\<rparr>"

definition post :: "string \<Rightarrow> (nat \<Rightarrow> real) \<Rightarrow> store \<Rightarrow> publicBody \<Rightarrow> (apiError + reservationRow) \<times> store" where
  "post newId rnd st b =
     (case postCheck st b of
        Inl e \<Rightarrow> (Inl e, st)
      | Inr adm \<Rightarrow>
          let row = createReservation newId rnd st adm in
          (Inr row, insertReservation row st))"


subsection \<open>Requests served one after another, and requests interleaved\<close>

text \<open>
  A call is a request with what its handler draws from outside: the row identifier and
  the random numbers. \<open>postAll\<close> serves the calls in turn, each to its end. Under
  concurrent load the handlers interleave at their \<open>await\<close>s; \<open>exec\<close> runs one handler up
  to the capacity test (\<open>Check\<close>) or from there to the insert (\<open>Insert\<close>), and a schedule
  is a list of such events.
\<close>

record call =
  call_body :: publicBody
  call_newId :: string
  call_rnd :: "nat \<Rightarrow> real"

fun postAll :: "store \<Rightarrow> call list \<Rightarrow> (apiError + reservationRow) list \<times> store" where
  "postAll st [] = ([], st)"
| "postAll st (c # cs) =
     (let (r, st') = post (call_newId c) (call_rnd c) st (call_body c);
          (rs, st'') = postAll st' cs
      in (r # rs, st''))"

definition admittedSize :: "apiError + reservationRow \<Rightarrow> int" where
  "admittedSize r = (case r of Inl e \<Rightarrow> 0 | Inr row \<Rightarrow> people row + kids row)"

datatype progress = Waiting | Checked admission | Answered "apiError + reservationRow"

datatype event = Check nat | Insert nat

fun exec :: "call list \<Rightarrow> event \<Rightarrow> store \<times> progress list \<Rightarrow> store \<times> progress list" where
  "exec cs (Check i) (st, ps) =
     (if i < length cs \<and> i < length ps \<and> ps ! i = Waiting then
        (case postCheck st (call_body (cs ! i)) of
           Inl e \<Rightarrow> (st, ps[i := Answered (Inl e)])
         | Inr adm \<Rightarrow> (st, ps[i := Checked adm]))
      else (st, ps))"
| "exec cs (Insert i) (st, ps) =
     (if i < length cs \<and> i < length ps then
        (case ps ! i of
           Checked adm \<Rightarrow>
             (let row = createReservation (call_newId (cs ! i)) (call_rnd (cs ! i)) st adm
              in (insertReservation row st, ps[i := Answered (Inr row)]))
         | _ \<Rightarrow> (st, ps))
      else (st, ps))"

definition run :: "call list \<Rightarrow> event list \<Rightarrow> store \<Rightarrow> store \<times> progress list" where
  "run cs evs st = fold (exec cs) evs (st, replicate (length cs) Waiting)"

definition admittedTotal :: "progress list \<Rightarrow> int" where
  "admittedTotal ps =
     sum_list (map (\<lambda>p. case p of Answered r \<Rightarrow> admittedSize r | _ \<Rightarrow> 0) ps)"

text \<open>The capacity of an area for a period, as the handler reads it.\<close>

definition periodCapacity :: "store \<Rightarrow> string \<Rightarrow> period \<Rightarrow> int" where
  "periodCapacity st a p =
     (case find (\<lambda>r. area_id r = a) (areas st) of
        None \<Rightarrow> 0
      | Some r \<Rightarrow> if p = AFTERNOON then orZeroInt (capacityAfternoon r)
                  else orZeroInt (capacityNight r))"

section \<open>The staff route: the capacity rule of enrichAndValidate\<close>

text \<open>
  The part of the middleware from \<open>if (areaId && reservationDate)\<close> to the call of
  \<open>next()\<close>. Its inputs are the values the middleware holds at that point: the HTTP
  method and \<open>req.params.id\<close>, the \<open>unitId\<close> and \<open>areaId\<close> that \<open>resolveUnit\<close> and
  \<open>resolveArea\<close> returned (\<open>None\<close> for \<open>null\<close>), the normalised \<open>people\<close> and \<open>kids\<close>, and
  the reservation date (\<open>None\<close> when the body has none; a string that yields an invalid
  \<open>Date\<close> is outside the model). \<open>Inr ()\<close> is the call of \<open>next()\<close>. The \<open>try\<close> around the
  look-up of the previous row only guards against a failing store, which is not modelled.
\<close>

definition strOrEmpty :: "string option \<Rightarrow> string" where
  "strOrEmpty v = (case v of None \<Rightarrow> [] | Some s \<Rightarrow> s)"

definition enrichAndValidate ::
  "(string \<Rightarrow> date option) \<Rightarrow> date \<Rightarrow> string \<Rightarrow> store \<Rightarrow> string \<Rightarrow> string option
     \<Rightarrow> string option \<Rightarrow> string option \<Rightarrow> int \<Rightarrow> int \<Rightarrow> date option \<Rightarrow> apiError + unit" where
  "enrichAndValidate parse now imagesBase st method paramId resolvedUnitId resolvedAreaId
       bodyPeople bodyKids reservationDateOpt =
     (case reservationDateOpt of
        None \<Rightarrow> Inr ()
      | Some rd \<Rightarrow>
         if \<not> truthy resolvedAreaId then Inr ()
         else
           let ymd = toYMD rd;
               hhmm = toHHmm rd;
               lst = listByUnitPublic parse now imagesBase st
                       (case resolvedUnitId of None \<Rightarrow> ''null'' | Some u \<Rightarrow> u)
                       (Some ymd) (Some hhmm)
           in
           (case find (\<lambda>a. Some (dto_id a) = resolvedAreaId) lst of
              None \<Rightarrow> Inl AREA_NOT_FOUND
            | Some found \<Rightarrow>
               let totalNovo = bodyPeople + bodyKids;
                   avail = (case available found of
                              Some v \<Rightarrow> v
                            | None \<Rightarrow> (case remaining found of Some v \<Rightarrow> v | None \<Rightarrow> 0));
                   creditoAtual =
                     (if method = ''PUT'' \<and> truthy paramId then
                        (case find (\<lambda>r. Some (res_id r) = paramId) (reservations st) of
                           None \<Rightarrow> 0
                         | Some prev \<Rightarrow>
                            let sameArea = (strOrEmpty (areaId prev) = strOrEmpty resolvedAreaId);
                                sameUnit = (strOrEmpty (unitId prev) = strOrEmpty resolvedUnitId);
                                sameDay = (toYMD (reservationDate prev) = ymd);
                                samePeriod = (toHHmm (reservationDate prev) = hhmm)
                            in if sameUnit \<and> sameArea \<and> sameDay \<and> samePeriod
                               then people prev + kids prev else 0)
                      else 0)
               in
               if totalNovo > avail + creditoAtual
               then Inl (AREA_NO_CAPACITY avail creditoAtual)
               else Inr ()))"


section \<open>Concrete stores and requests\<close>

text \<open>A store whose only reservation holds the code \<open>AAAAAA\<close>.\<close>

definition collidingStore :: store where
  "collidingStore =
     \<lparr>units = [], areas = [],
      reservations =
        [\<lparr>res_id = ''r0'', people = 2, kids = 0,
          reservationDate = \<lparr>year = 2025, month = 2, dayOfMonth = 10, hours = 13,
                             minutes = 0, seconds = 0, millis = 0\<rparr>,
          unitId = None, areaId = None, status = CHECKED_IN, email = None, phone = None,
          reservationCode = Some ''AAAAAA''\<rparr>],
      blocks = []\<rparr>"

text \<open>
  The window of a period on a day and the capacity of an area for a period, in the
  specification's words; and the DTO of an area that reports \<open>r\<close> remaining seats.
\<close>

definition periodWindowSpec :: "date \<Rightarrow> period \<Rightarrow> date \<times> date" where
  "periodWindowSpec day p =
     (case p of
        AFTERNOON \<Rightarrow> (at_date day 12 0 0 0, at_date day 17 29 59 999)
      | NIGHT \<Rightarrow> (at_date day 17 30 0 0, at_date day 23 59 59 999))"

definition periodCapSpec :: "areaRow \<Rightarrow> period \<Rightarrow> int" where
  "periodCapSpec a p =
     (case p of
        AFTERNOON \<Rightarrow> (case capacityAfternoon a of None \<Rightarrow> 0 | Some c \<Rightarrow> c)
      | NIGHT \<Rightarrow> (case capacityNight a of None \<Rightarrow> 0 | Some c \<Rightarrow> c))"

definition withRemaining :: "string \<Rightarrow> areaRow \<Rightarrow> int \<Rightarrow> AreaPublicDTO" where
  "withRemaining imagesBase a r =
     (withResolvedPhoto imagesBase a)
       \<lparr>remaining := Some r, available := Some r, isAvailable := Some (r > 0)\<rparr>"

text \<open>
  A unit with one area of 10 afternoon and 7 night seats. On 10 March 2025 the area holds
  a party of 6 and 2 at 13:00 awaiting check-in, a checked-in party of 4 at 10:00, and a
  party of 3 at 14:00 in a status that no longer counts.
\<close>

definition march10 :: "nat \<Rightarrow> nat \<Rightarrow> date" where
  "march10 h m = \<lparr>year = 2025, month = 2, dayOfMonth = 10, hours = h, minutes = m,
                  seconds = 0, millis = 0\<rparr>"

definition deckArea :: areaRow where
  "deckArea = \<lparr>area_id = ''a1'', area_unitId = ''u1'', area_name = ''Deck'',
               capacityAfternoon = Some 10, capacityNight = Some 7, photoUrl = None,
               area_isActive = True, description = None, iconEmoji = None\<rparr>"

definition booking :: "string \<Rightarrow> int \<Rightarrow> int \<Rightarrow> date \<Rightarrow> ReservationStatus \<Rightarrow> reservationRow" where
  "booking i p k d s =
     \<lparr>res_id = i, people = p, kids = k, reservationDate = d,
      unitId = Some ''u1'', areaId = Some ''a1'', status = s,
      email = None, phone = None, reservationCode = None\<rparr>"

definition deckStore :: store where
  "deckStore =
     \<lparr>units = [\<lparr>unit_id = ''u1'', unit_name = ''Centro'', unit_isActive = True\<rparr>],
      areas = [deckArea],
      reservations =
        [booking ''r1'' 6 2 (march10 13 0) AWAITING_CHECKIN,
         booking ''r2'' 4 0 (march10 10 0) CHECKED_IN,
         booking ''r3'' 3 0 (march10 14 0) (OtherStatus ''NO_SHOW'')],
      blocks = []\<rparr>"

text \<open>The same store with the afternoon of 10 March blocked for the whole unit.\<close>

definition deckStoreBlocked :: store where
  "deckStoreBlocked =
     deckStore\<lparr>blocks := [\<lparr>block_unitId = ''u1'', block_areaId = None, block_mode = PERIOD,
                             block_date = march10 0 0, block_period = BLOCK_AFTERNOON\<rparr>]\<rparr>"

definition march11 :: "nat \<Rightarrow> nat \<Rightarrow> date" where
  "march11 h m = \<lparr>year = 2025, month = 2, dayOfMonth = 11, hours = h, minutes = m,
                  seconds = 0, millis = 0\<rparr>"

subsection \<open>The checks of the public route, in the specification's words\<close>

definition basicValid :: "publicBody \<Rightarrow> bool" where
  "basicValid b =
     (length (trim (fullName b)) \<ge> 3 \<and> orZeroInt (body_people b) \<ge> 1 \<and>
      truthy (body_unitId b) \<and> truthy (body_areaId b) \<and> body_reservationDate b \<noteq> None)"

definition contactHasActive :: "store \<Rightarrow> publicBody \<Rightarrow> bool" where
  "contactHasActive st b =
     (\<exists>r \<in> set (reservations st). status r = AWAITING_CHECKIN \<and>
        ((truthy (toLowerEmail (body_email b)) \<and> email r = toLowerEmail (body_email b)) \<or>
         (truthy (normPhone (body_phone b)) \<and> phone r = normPhone (body_phone b))))"

definition unitResolves :: "store \<Rightarrow> publicBody \<Rightarrow> bool" where
  "unitResolves st b =
     (case find (\<lambda>u. Some (unit_id u) = body_unitId b) (units st) of
        None \<Rightarrow> False | Some u \<Rightarrow> unit_isActive u)"

definition areaResolves :: "store \<Rightarrow> publicBody \<Rightarrow> bool" where
  "areaResolves st b =
     (case find (\<lambda>a. Some (area_id a) = body_areaId b) (areas st) of
        None \<Rightarrow> False
      | Some a \<Rightarrow> area_isActive a \<and> Some (area_unitId a) = body_unitId b)"

definition requestedSeats :: "publicBody \<Rightarrow> int" where
  "requestedSeats b = max 0 (orZeroInt (body_people b)) + max 0 (orZeroInt (body_kids b))"

definition remainingFor :: "store \<Rightarrow> string \<Rightarrow> date \<Rightarrow> int" where
  "remainingFor st a dt =
     max 0 (periodCapacity st a (getPeriodFromDate dt) -
            usedSpec st a (fst (periodWindowDate dt)) (snd (periodWindowDate dt)))"

text \<open>
  A request for a unit that does not exist, from a contact that already holds a
  reservation awaiting check-in.
\<close>

definition contactStore :: store where
  "contactStore =
     deckStore\<lparr>reservations :=
       [(booking ''r1'' 6 2 (march10 13 0) AWAITING_CHECKIN)\<lparr>email := Some ''ana@mane.com''\<rparr>]\<rparr>"

definition ghostUnitBody :: publicBody where
  "ghostUnitBody =
     \<lparr>fullName = ''Ana Lima'', body_people = Some 2, body_kids = None,
      body_reservationDate = Some (march11 13 0), body_email = Some ''Ana@Mane.com'',
      body_phone = None, body_unitId = Some ''u404'', body_areaId = Some ''a1''\<rparr>"

text \<open>A party of 3 for the area of the example at 13:00, where 2 seats remain.\<close>

definition partyOfThree :: publicBody where
  "partyOfThree =
     \<lparr>fullName = ''Rui Paz'', body_people = Some 3, body_kids = Some 0,
      body_reservationDate = Some (march10 13 0), body_email = None,
      body_phone = None, body_unitId = Some ''u1'', body_areaId = Some ''a1''\<rparr>"

text \<open>The schedule that serves the calls one after another.\<close>

definition sequentialSchedule :: "nat \<Rightarrow> nat \<Rightarrow> event list" where
  "sequentialSchedule k n = concat (map (\<lambda>i. [Check i, Insert i]) [k..<n])"

text \<open>
  The area of the example with a single afternoon seat and no reservation, and two
  calls for one person each at 13:00 on 10 March.
\<close>

definition oneSeatStore :: store where
  "oneSeatStore =
     deckStore\<lparr>areas := [deckArea\<lparr>capacityAfternoon := Some 1\<rparr>], reservations := []\<rparr>"

definition onePerson :: publicBody where
  "onePerson =
     \<lparr>fullName = ''Rui Paz'', body_people = Some 1, body_kids = Some 0,
      body_reservationDate = Some (march10 13 0), body_email = None,
      body_phone = None, body_unitId = Some ''u1'', body_areaId = Some ''a1''\<rparr>"

definition twoCalls :: "call list" where
  "twoCalls =
     [\<lparr>call_body = onePerson, call_newId = ''r1'', call_rnd = (\<lambda>i. 0)\<rparr>,
      \<lparr>call_body = onePerson, call_newId = ''r2'', call_rnd = (\<lambda>i. 1 / 2)\<rparr>]"

text \<open>Two calls for one person each at 11:00 on 10 March.\<close>

definition onePersonMorning :: publicBody where
  "onePersonMorning = onePerson\<lparr>body_reservationDate := Some (march10 11 0)\<rparr>"

definition twoMorningCalls :: "call list" where
  "twoMorningCalls =
     [\<lparr>call_body = onePersonMorning, call_newId = ''r1'', call_rnd = (\<lambda>i. 0)\<rparr>,
      \<lparr>call_body = onePersonMorning, call_newId = ''r2'', call_rnd = (\<lambda>i. 1 / 2)\<rparr>]"

section \<open>The period classifiers agree\<close>

lemma digitChar_isDigit: "isDigit (digitChar n)"
  unfolding isDigit_def digitChar_def by simp

lemma digitChar_val: "digitVal (digitChar n) = n mod 10"
  unfolding digitVal_def digitChar_def by simp

lemma isDigit_not_colon: "isDigit c \<Longrightarrow> c \<noteq> CHR '':''"
  unfolding isDigit_def by auto

lemma split_valid:
  assumes "isDigit a" "isDigit b" "isDigit c" "isDigit d"
  shows "splitOn (CHR '':'') [a, b, CHR '':'', c, d] = [[a, b], [c, d]]"
  using assms isDigit_not_colon[of a] isDigit_not_colon[of b]
    isDigit_not_colon[of c] isDigit_not_colon[of d]
  by simp

lemma Number_two:
  assumes "isDigit a" "isDigit b"
  shows "Number_str [a, b] = Some (digitVal a * 10 + digitVal b)"
  using assms by (simp add: Number_str_def)

lemma clamp_valid:
  assumes "isDigit a" "isDigit b" "isDigit c" "isDigit d"
  shows "clampToBusinessWindow [a, b, CHR '':'', c, d] =
    (let mins = (digitVal a * 10 + digitVal b) * 60 + (digitVal c * 10 + digitVal d) in
     if mins < 720 then AFTERNOON else if 1050 \<le> mins then NIGHT else AFTERNOON)"
  unfolding clampToBusinessWindow_def split_valid[OF assms]
  using assms
  by (simp add: Number_two nthOrUndefined_def orZero_def EVENING_CUTOFF_MIN_def Let_def)

lemma clamp_toHHmm:
  "hours dt < 100 \<Longrightarrow> minutes dt < 100 \<Longrightarrow>
   clampToBusinessWindow (toHHmm dt) = getPeriodFromDate dt"
  unfolding toHHmm_def pad2_def
  by (simp add: clamp_valid digitChar_isDigit digitChar_val getPeriodFromDate_def
      EVENING_CUTOFF_MIN_def Let_def)

text \<open>
  Claim C7. With \<open>mins = hour * 60 + minute\<close>, the classifier on a Date returns AFTERNOON
  below 720, AFTERNOON from 720 to 1049 and NIGHT from 1050 on; the classifier on a
  string \<open>HH:mm\<close> of four digits follows the same rule on the number the digits spell;
  and on the \<open>HH:mm\<close> rendering of any Date the string classifier returns what the Date
  classifier returns.
\<close>

theorem period_classifiers_agree:
  "(getPeriodFromDate dt =
      (if hours dt * 60 + minutes dt < 720 then AFTERNOON
       else if hours dt * 60 + minutes dt < 1050 then AFTERNOON else NIGHT)) \<and>
   (isDigit a \<and> isDigit b \<and> isDigit c \<and> isDigit d \<longrightarrow>
      clampToBusinessWindow [a, b, CHR '':'', c, d] =
        (if (digitVal a * 10 + digitVal b) * 60 + (digitVal c * 10 + digitVal d) < 720
         then AFTERNOON
         else if (digitVal a * 10 + digitVal b) * 60 + (digitVal c * 10 + digitVal d) < 1050
         then AFTERNOON else NIGHT)) \<and>
   (hours dt < 24 \<and> minutes dt < 60 \<longrightarrow>
      clampToBusinessWindow (toHHmm dt) = getPeriodFromDate dt)"
proof (intro conjI impI)
  show "getPeriodFromDate dt =
      (if hours dt * 60 + minutes dt < 720 then AFTERNOON
       else if hours dt * 60 + minutes dt < 1050 then AFTERNOON else NIGHT)"
    by (simp add: getPeriodFromDate_def EVENING_CUTOFF_MIN_def Let_def)
next
  assume "isDigit a \<and> isDigit b \<and> isDigit c \<and> isDigit d"
  then show "clampToBusinessWindow [a, b, CHR '':'', c, d] =
        (if (digitVal a * 10 + digitVal b) * 60 + (digitVal c * 10 + digitVal d) < 720
         then AFTERNOON
         else if (digitVal a * 10 + digitVal b) * 60 + (digitVal c * 10 + digitVal d) < 1050
         then AFTERNOON else NIGHT)"
    by (simp add: clamp_valid Let_def)
next
  assume "hours dt < 24 \<and> minutes dt < 60"
  then show "clampToBusinessWindow (toHHmm dt) = getPeriodFromDate dt"
    by (simp add: clamp_toHHmm)
qed

theorem period_classifiers_agree_witness:
  "isDigit (CHR ''1'') \<and> isDigit (CHR ''7'') \<and> isDigit (CHR ''3'') \<and> isDigit (CHR ''0'') \<and>
   clampToBusinessWindow ''17:30'' = NIGHT \<and>
   hours \<lparr>year = 2025, month = 2, dayOfMonth = 10, hours = 17, minutes = 29,
          seconds = 59, millis = 999\<rparr> < 24 \<and>
   clampToBusinessWindow (toHHmm \<lparr>year = 2025, month = 2, dayOfMonth = 10, hours = 17,
          minutes = 29, seconds = 59, millis = 999\<rparr>) = AFTERNOON \<and>
   getPeriodFromDate \<lparr>year = 2025, month = 2, dayOfMonth = 10, hours = 17, minutes = 29,
          seconds = 59, millis = 999\<rparr> = AFTERNOON"
  using period_classifiers_agree
    [of "\<lparr>year = 2025, month = 2, dayOfMonth = 10, hours = 17, minutes = 29,
          seconds = 59, millis = 999\<rparr>" "CHR ''1''" "CHR ''7''" "CHR ''3''" "CHR ''0''"]
  by (simp add: isDigit_def digitVal_def)

section \<open>The reservation code generator is bounded\<close>

lemma codeAlphabet_facts:
  "length codeAlphabet = 32" "distinct codeAlphabet"
  "CHR ''0'' \<notin> set codeAlphabet" "CHR ''O'' \<notin> set codeAlphabet"
  "CHR ''1'' \<notin> set codeAlphabet" "CHR ''I'' \<notin> set codeAlphabet"
  by (simp_all add: codeAlphabet_def)

lemma pick_in_alphabet:
  assumes "0 \<le> r" "r < 1"
  shows "\<exists>c \<in> set codeAlphabet. pick r = [c]"
proof -
  have len: "length codeAlphabet = 32" by (simp add: codeAlphabet_def)
  have lo: "0 \<le> \<lfloor>r * 32\<rfloor>" using assms by simp
  have "r * 32 < 32" using assms by simp
  then have hi: "\<lfloor>r * 32\<rfloor> < 32" by (simp add: floor_less_iff)
  have "nat \<lfloor>r * 32\<rfloor> < 32" using lo hi by linarith
  then have "nat \<lfloor>r * 32\<rfloor> < length codeAlphabet" unfolding len .
  then have "codeAlphabet ! nat \<lfloor>r * 32\<rfloor> \<in> set codeAlphabet" by (rule nth_mem)
  moreover have "pick r = [codeAlphabet ! nat \<lfloor>r * 32\<rfloor>]"
    using lo hi by (simp add: pick_def len Let_def)
  ultimately show ?thesis by blast
qed

lemma genCode6_shape:
  assumes "\<forall>i. 0 \<le> rnd i \<and> rnd i < 1"
  shows "length (genCode6 rnd pos) = 6 \<and> set (genCode6 rnd pos) \<subseteq> set codeAlphabet"
proof -
  have u: "[0..<6] = [0, 1, 2, 3, 4, 5::nat]" by (simp add: upt_rec)
  have p: "\<And>i. \<exists>c \<in> set codeAlphabet. pick (rnd i) = [c]"
    using assms pick_in_alphabet by blast
  obtain c0 where c0: "c0 \<in> set codeAlphabet" "pick (rnd (pos + 0)) = [c0]" using p by blast
  obtain c1 where c1: "c1 \<in> set codeAlphabet" "pick (rnd (pos + 1)) = [c1]" using p by blast
  obtain c2 where c2: "c2 \<in> set codeAlphabet" "pick (rnd (pos + 2)) = [c2]" using p by blast
  obtain c3 where c3: "c3 \<in> set codeAlphabet" "pick (rnd (pos + 3)) = [c3]" using p by blast
  obtain c4 where c4: "c4 \<in> set codeAlphabet" "pick (rnd (pos + 4)) = [c4]" using p by blast
  obtain c5 where c5: "c5 \<in> set codeAlphabet" "pick (rnd (pos + 5)) = [c5]" using p by blast
  have "genCode6 rnd pos = [c0, c1, c2, c3, c4, c5]"
    unfolding genCode6_def u using c0 c1 c2 c3 c4 c5 by simp
  then show ?thesis using c0 c1 c2 c3 c4 c5 by simp
qed

lemma generateFrom_bounds:
  "i \<le> 8 \<Longrightarrow> lookups (generateFrom rnd st i) \<le> 8 \<and> draws (generateFrom rnd st i) \<le> 54 \<and>
     (\<exists>k. i \<le> k \<and> k \<le> 8 \<and> code (generateFrom rnd st i) = genCode6 rnd (6 * k) \<and>
        (k < 8 \<longrightarrow> \<not> codeExists st (code (generateFrom rnd st i))))"
proof (induction rnd st i rule: generateFrom.induct)
  case (1 rnd st i)
  show ?case
  proof (cases "i < 8")
    case False
    with 1(2) have "i = 8" by simp
    then show ?thesis
      by (subst (1 2 3 4) generateFrom.simps) auto
  next
    case True
    show ?thesis
    proof (cases "codeExists st (genCode6 rnd (6 * i))")
      case False
      with True show ?thesis
        by (subst (1 2 3 4) generateFrom.simps) (auto simp: Let_def)
    next
      case c: True
      have ih: "lookups (generateFrom rnd st (i + 1)) \<le> 8 \<and> draws (generateFrom rnd st (i + 1)) \<le> 54 \<and>
     (\<exists>k. i + 1 \<le> k \<and> k \<le> 8 \<and> code (generateFrom rnd st (i + 1)) = genCode6 rnd (6 * k) \<and>
        (k < 8 \<longrightarrow> \<not> codeExists st (code (generateFrom rnd st (i + 1)))))"
        using 1(1)[OF True refl] c True by simp
      have eq: "generateFrom rnd st i = generateFrom rnd st (i + 1)"
        using True c by (subst generateFrom.simps) (simp add: Let_def)
      show ?thesis unfolding eq using ih by (metis add_leD1)
    qed
  qed
qed

lemma generateFrom_exhausted:
  "i \<le> 8 \<Longrightarrow> \<forall>k. i \<le> k \<and> k < 8 \<longrightarrow> codeExists st (genCode6 rnd (6 * k)) \<Longrightarrow>
   generateFrom rnd st i = \<lparr>code = genCode6 rnd 48, lookups = 8, draws = 54\<rparr>"
proof (induction rnd st i rule: generateFrom.induct)
  case (1 rnd st i)
  show ?case
  proof (cases "i < 8")
    case False
    with 1(2) have "i = 8" by simp
    then show ?thesis by (subst generateFrom.simps) simp
  next
    case True
    have c: "codeExists st (genCode6 rnd (6 * i))" using 1(3) True by simp
    have "generateFrom rnd st (i + 1) = \<lparr>code = genCode6 rnd 48, lookups = 8, draws = 54\<rparr>"
      using 1(1)[OF True refl] c True 1(3) by simp
    moreover have "generateFrom rnd st i = generateFrom rnd st (i + 1)"
      using True c by (subst generateFrom.simps) (simp add: Let_def)
    ultimately show ?thesis by simp
  qed
qed


lemma generateFrom_first_free:
  "i \<le> k \<Longrightarrow> k < 8 \<Longrightarrow>
   \<forall>j. i \<le> j \<and> j < k \<longrightarrow> codeExists st (genCode6 rnd (6 * j)) \<Longrightarrow>
   \<not> codeExists st (genCode6 rnd (6 * k)) \<Longrightarrow>
   generateFrom rnd st i = \<lparr>code = genCode6 rnd (6 * k), lookups = k + 1, draws = 6 * (k + 1)\<rparr>"
proof (induction rnd st i rule: generateFrom.induct)
  case (1 rnd st i)
  have i8: "i < 8" using 1(2,3) by simp
  show ?case
  proof (cases "i = k")
    case True
    then show ?thesis
      using i8 1(5) by (subst generateFrom.simps) (simp add: Let_def)
  next
    case False
    then have lt: "i < k" using 1(2) by simp
    have c: "codeExists st (genCode6 rnd (6 * i))" using 1(4) lt by simp
    have "generateFrom rnd st (i + 1) =
            \<lparr>code = genCode6 rnd (6 * k), lookups = k + 1, draws = 6 * (k + 1)\<rparr>"
      using 1(1)[OF i8 refl] c lt 1(3,4,5) by simp
    moreover have "generateFrom rnd st i = generateFrom rnd st (i + 1)"
      using i8 c by (subst generateFrom.simps) (simp add: Let_def)
    ultimately show ?thesis by simp
  qed
qed

text \<open>
  Claim C9. When \<open>Math.random\<close> returns numbers of \<open>[0, 1)\<close>, the generator makes at most 8
  look-ups and 54 draws; every candidate, and so the code returned, has 6 characters of
  the alphabet, which has 32 distinct symbols and none of 0, O, 1 and I. The candidates
  are looked up in the store
  in the order they are drawn, and the first one that no stored reservation holds is
  returned at once, after as many look-ups as candidates so far; when the eight
  candidates all collide with stored codes, the generator returns the ninth code, drawn
  after them and never looked up. The generator is a total function: it returns on every
  input.
\<close>

theorem generateUniqueReservationCode_bounded:
  assumes "\<forall>i. 0 \<le> rnd i \<and> rnd i < 1"
  shows "length (code (generateUniqueReservationCode rnd st)) = 6 \<and>
         set (code (generateUniqueReservationCode rnd st)) \<subseteq> set codeAlphabet \<and>
         lookups (generateUniqueReservationCode rnd st) \<le> 8 \<and>
         draws (generateUniqueReservationCode rnd st) \<le> 54 \<and>
         (\<forall>k. length (genCode6 rnd (6 * k)) = 6 \<and>
              set (genCode6 rnd (6 * k)) \<subseteq> set codeAlphabet) \<and>
         (\<forall>k. k < 8 \<and> (\<forall>j. j < k \<longrightarrow> codeExists st (genCode6 rnd (6 * j))) \<and>
              \<not> codeExists st (genCode6 rnd (6 * k)) \<longrightarrow>
            generateUniqueReservationCode rnd st =
              \<lparr>code = genCode6 rnd (6 * k), lookups = k + 1, draws = 6 * (k + 1)\<rparr>) \<and>
         ((\<forall>k. k < 8 \<longrightarrow> codeExists st (genCode6 rnd (6 * k))) \<longrightarrow>
            generateUniqueReservationCode rnd st =
              \<lparr>code = genCode6 rnd 48, lookups = 8, draws = 54\<rparr>) \<and>
         length codeAlphabet = 32 \<and> distinct codeAlphabet \<and>
         set ''0O1I'' \<inter> set codeAlphabet = {}"
proof -
  obtain k where k: "code (generateFrom rnd st 0) = genCode6 rnd (6 * k)"
    using generateFrom_bounds[of 0 rnd st] by auto
  have shape: "length (genCode6 rnd (6 * k)) = 6 \<and> set (genCode6 rnd (6 * k)) \<subseteq> set codeAlphabet"
    using genCode6_shape[OF assms] by blast
  have b: "lookups (generateFrom rnd st 0) \<le> 8 \<and> draws (generateFrom rnd st 0) \<le> 54"
    using generateFrom_bounds[of 0 rnd st] by simp
  have f: "\<forall>k. k < 8 \<and> (\<forall>j. j < k \<longrightarrow> codeExists st (genCode6 rnd (6 * j))) \<and>
              \<not> codeExists st (genCode6 rnd (6 * k)) \<longrightarrow>
            generateFrom rnd st 0 =
              \<lparr>code = genCode6 rnd (6 * k), lookups = k + 1, draws = 6 * (k + 1)\<rparr>"
    using generateFrom_first_free[of 0 _ st rnd] by simp
  have e: "(\<forall>k. k < 8 \<longrightarrow> codeExists st (genCode6 rnd (6 * k))) \<longrightarrow>
      generateFrom rnd st 0 = \<lparr>code = genCode6 rnd 48, lookups = 8, draws = 54\<rparr>"
    using generateFrom_exhausted[of 0 st rnd] by simp
  have a: "set ''0O1I'' \<inter> set codeAlphabet = {}"
    using codeAlphabet_facts(3-6) by simp
  have every: "\<forall>k. length (genCode6 rnd (6 * k)) = 6 \<and>
              set (genCode6 rnd (6 * k)) \<subseteq> set codeAlphabet"
    using genCode6_shape[OF assms] by blast
  show ?thesis
    unfolding generateUniqueReservationCode_def
    using k shape b every f e a codeAlphabet_facts(1,2) by simp
qed

theorem generateUniqueReservationCode_bounded_witness:
  "(\<forall>i::nat. 0 \<le> (0::real) \<and> (0::real) < 1) \<and>
   codeExists collidingStore ''AAAAAA'' \<and>
   generateUniqueReservationCode (\<lambda>i. 0) collidingStore =
     \<lparr>code = ''AAAAAA'', lookups = 8, draws = 54\<rparr> \<and>
   genCode6 (\<lambda>i. if i < 6 then 0 else 1 / 2) 0 = ''AAAAAA'' \<and>
   genCode6 (\<lambda>i. if i < 6 then 0 else 1 / 2) 6 = ''SSSSSS'' \<and>
   \<not> codeExists collidingStore ''SSSSSS'' \<and>
   generateUniqueReservationCode (\<lambda>i. if i < 6 then 0 else 1 / 2) collidingStore =
     \<lparr>code = ''SSSSSS'', lookups = 2, draws = 12\<rparr>"
proof -
  have g: "\<And>pos. genCode6 (\<lambda>i. 0) pos = ''AAAAAA''"
    by (simp add: genCode6_def pick_def codeAlphabet_def upt_rec)
  have g0: "genCode6 (\<lambda>i. if i < 6 then 0 else 1 / 2) 0 = ''AAAAAA''"
    by (simp add: genCode6_def pick_def codeAlphabet_def upt_rec)
  have g6: "genCode6 (\<lambda>i. if i < 6 then 0 else 1 / 2) 6 = ''SSSSSS''"
    by (simp add: genCode6_def pick_def codeAlphabet_def upt_rec)
  have c: "codeExists collidingStore ''AAAAAA''"
    by (simp add: codeExists_def collidingStore_def)
  have n: "\<not> codeExists collidingStore ''SSSSSS''"
    by (simp add: codeExists_def collidingStore_def)
  have r: "\<forall>i::nat. 0 \<le> (if i < 6 then 0 else 1 / 2 :: real) \<and>
                     (if i < 6 then 0 else 1 / 2 :: real) < 1"
    by simp
  have first: "generateUniqueReservationCode (\<lambda>i. 0) collidingStore =
     \<lparr>code = ''AAAAAA'', lookups = 8, draws = 54\<rparr>"
    using generateUniqueReservationCode_bounded[of "\<lambda>i. 0" collidingStore] g c by simp
  have "\<forall>j. j < (1::nat) \<longrightarrow>
          codeExists collidingStore (genCode6 (\<lambda>i. if i < 6 then 0 else 1 / 2) (6 * j))"
    using g0 c by simp
  then have second: "generateUniqueReservationCode (\<lambda>i. if i < 6 then 0 else 1 / 2) collidingStore =
     \<lparr>code = ''SSSSSS'', lookups = 2, draws = 12\<rparr>"
    using generateUniqueReservationCode_bounded
      [OF r, of collidingStore, THEN conjunct2, THEN conjunct2, THEN conjunct2, THEN conjunct2,
       THEN conjunct2, THEN conjunct1, THEN spec, of 1] g6 n
    by simp
  show ?thesis using first second g0 g6 c n by simp
qed

section \<open>The availability figures of listByUnitPublic\<close>

text \<open>
  The service reads the parser at its date argument and nowhere else. An example
  therefore fixes the parser by what dayjs returns on the date strings it uses:
  10 March 2025 at 00:00 for \<open>2025-03-10\<close>, and an invalid date for \<open>not-a-date\<close>.
\<close>

lemma listByUnitPublic_parser_local:
  "parse1 (case dOpt of Some d \<Rightarrow> d | None \<Rightarrow> []) =
   parse2 (case dOpt of Some d \<Rightarrow> d | None \<Rightarrow> []) \<Longrightarrow>
   listByUnitPublic parse1 now ib st uid dOpt tOpt =
   listByUnitPublic parse2 now ib st uid dOpt tOpt"
  unfolding listByUnitPublic_def by (simp only:)

lemma usedMapOf_fold:
  "distinct (map g_areaId gs) \<Longrightarrow>
   fold (\<lambda>g m. let used = orZeroInt (sum_people g) + orZeroInt (sum_kids g) in
                (case g_areaId g of
                   None \<Rightarrow> m
                 | Some k \<Rightarrow> if k \<noteq> [] then m(k \<mapsto> used) else m)) gs m k =
   (if k = [] then m k
    else (case find (\<lambda>g. g_areaId g = Some k) gs of
            None \<Rightarrow> m k
          | Some g \<Rightarrow> Some (orZeroInt (sum_people g) + orZeroInt (sum_kids g))))"
proof (induction gs arbitrary: m)
  case Nil
  then show ?case by simp
next
  case (Cons g gs)
  have d: "distinct (map g_areaId gs)" and n: "g_areaId g \<notin> set (map g_areaId gs)"
    using Cons.prems by simp_all
  show ?case
  proof (cases "g_areaId g = Some k")
    case True
    then have "find (\<lambda>g. g_areaId g = Some k) gs = None"
      using n by (force simp: find_None_iff)
    then show ?thesis
      using True Cons.IH[OF d] by (simp add: Let_def)
  next
    case False
    then show ?thesis
      using Cons.IH[OF d] by (auto simp: Let_def split: option.splits)
  qed
qed

lemma find_groupBy:
  "find (\<lambda>g. g_areaId g = k) (groupByAreaId rows) =
     (if k \<in> set (map areaId rows)
      then Some \<lparr>g_areaId = k,
                 sum_people = Some (sum_list (map people (filter (\<lambda>r. areaId r = k) rows))),
                 sum_kids = Some (sum_list (map kids (filter (\<lambda>r. areaId r = k) rows)))\<rparr>
      else None)"
proof -
  have "\<And>ks. find (\<lambda>g. g_areaId g = k)
          (map (\<lambda>k. \<lparr>g_areaId = k,
                sum_people = Some (sum_list (map people (filter (\<lambda>r. areaId r = k) rows))),
                sum_kids = Some (sum_list (map kids (filter (\<lambda>r. areaId r = k) rows)))\<rparr>) ks) =
     (if k \<in> set ks
      then Some \<lparr>g_areaId = k,
                 sum_people = Some (sum_list (map people (filter (\<lambda>r. areaId r = k) rows))),
                 sum_kids = Some (sum_list (map kids (filter (\<lambda>r. areaId r = k) rows)))\<rparr>
      else None)"
  proof -
    fix ks show "?thesis ks" by (induction ks) auto
  qed
  then show ?thesis unfolding groupByAreaId_def by simp
qed

lemma distinct_groupBy: "distinct (map g_areaId (groupByAreaId rows))"
  unfolding groupByAreaId_def by (simp add: comp_def)

lemma sum_people_kids:
  "sum_list (map people rs) + sum_list (map kids rs) = (\<Sum>r\<leftarrow>rs. people r + kids r)"
  by (induction rs) auto

lemma sum_filter_empty:
  "k \<notin> set (map areaId rows) \<Longrightarrow> filter (\<lambda>r. areaId r = k) rows = []"
  by (induction rows) auto

lemma usedMapOf_groupBy:
  "k \<noteq> [] \<Longrightarrow>
   (case usedMapOf (groupByAreaId rows) k of None \<Rightarrow> 0 | Some u \<Rightarrow> u) =
   (\<Sum>r\<leftarrow>filter (\<lambda>r. areaId r = Some k) rows. people r + kids r)"
proof -
  assume k: "k \<noteq> []"
  have "usedMapOf (groupByAreaId rows) k =
     (case find (\<lambda>g. g_areaId g = Some k) (groupByAreaId rows) of
            None \<Rightarrow> None
          | Some g \<Rightarrow> Some (orZeroInt (sum_people g) + orZeroInt (sum_kids g)))"
    unfolding usedMapOf_def usedMapOf_fold[OF distinct_groupBy] using k by simp
  then show ?thesis
    by (simp add: find_groupBy orZeroInt_def sum_people_kids sum_filter_empty)
qed

lemma used_is_usedSpec:
  "k \<noteq> [] \<Longrightarrow>
   (case usedMapOf (groupedInWindow st from to) k of None \<Rightarrow> 0 | Some u \<Rightarrow> u) =
   usedSpec st k from to"
proof -
  assume k: "k \<noteq> []"
  have f: "filter (\<lambda>r. areaId r = Some k)
             (filter (\<lambda>r. areaId r \<noteq> None \<and> inWindow from to (reservationDate r) \<and>
                           countedStatus (status r)) (reservations st)) =
           filter (\<lambda>r. areaId r = Some k \<and>
                      (status r = AWAITING_CHECKIN \<or> status r = CHECKED_IN) \<and>
                      dateLe from (reservationDate r) \<and> dateLe (reservationDate r) to)
                (reservations st)"
    by (auto simp: inWindow_def countedStatus_def intro: filter_cong)
  show ?thesis
    unfolding groupedInWindow_def usedSpec_def usedMapOf_groupBy[OF k] f ..
qed

lemma blocked_is_blockedSpec:
  assumes "\<forall>b \<in> set (blocks st). block_areaId b \<noteq> Some []"
  shows "(list_ex (\<lambda>b. \<not> truthy b) (findBlocks st uid (startOfDay day) (endOfDay day) ps) \<or>
          k \<in> set (concat (map (\<lambda>b. case b of Some k \<Rightarrow> [k] | None \<Rightarrow> [])
                 (filter truthy (findBlocks st uid (startOfDay day) (endOfDay day) ps))))) =
         blockedSpec st uid k day (set ps)"
proof -
  have t: "\<And>b. b \<in> set (blocks st) \<Longrightarrow> truthy (block_areaId b) = (block_areaId b \<noteq> None)"
    using assms by (auto simp: truthy_def split: option.splits)
  have c: "\<And>xs. (k \<in> set (concat (map (\<lambda>b. case b of Some k \<Rightarrow> [k] | None \<Rightarrow> []) xs))) =
                 (Some k \<in> set xs)"
  proof -
    fix xs :: "string option list"
    show "(k \<in> set (concat (map (\<lambda>b. case b of Some k \<Rightarrow> [k] | None \<Rightarrow> []) xs))) =
                 (Some k \<in> set xs)"
      by (induction xs) (auto split: option.splits)
  qed
  have l: "(list_ex (\<lambda>b. \<not> truthy b) (findBlocks st uid (startOfDay day) (endOfDay day) ps)) =
           (None \<in> set (findBlocks st uid (startOfDay day) (endOfDay day) ps))"
    unfolding findBlocks_def list_ex_iff using t by force
  have r: "(Some k \<in> set (filter truthy (findBlocks st uid (startOfDay day) (endOfDay day) ps))) =
           (Some k \<in> set (findBlocks st uid (startOfDay day) (endOfDay day) ps))"
    unfolding findBlocks_def using t by force
  show ?thesis
    unfolding c l r
    unfolding findBlocks_def blockedSpec_def
    by (auto simp: image_iff)
qed

lemma withAvailability_spec:
  assumes "area_id a \<noteq> []" "\<forall>b \<in> set (blocks st). block_areaId b \<noteq> Some []"
  shows "withAvailability
           (list_ex (\<lambda>b. \<not> truthy b) (findBlocks st uid (startOfDay day) (endOfDay day) ps))
           (set (concat (map (\<lambda>b. case b of Some k \<Rightarrow> [k] | None \<Rightarrow> [])
                 (filter truthy (findBlocks st uid (startOfDay day) (endOfDay day) ps)))))
           (usedMapOf (groupedInWindow st from to)) capOf (withResolvedPhoto ib a) =
         withRemaining ib a
           (remainingSpec (blockedSpec st uid (area_id a) day (set ps))
              (capOf (withResolvedPhoto ib a)) (usedSpec st (area_id a) from to))"
proof -
  have i: "dto_id (withResolvedPhoto ib a) = area_id a" by (simp add: withResolvedPhoto_def)
  show ?thesis
    unfolding withAvailability_def Let_def i
      used_is_usedSpec[OF assms(1)] blocked_is_blockedSpec[OF assms(2)]
    by (simp add: withRemaining_def remainingSpec_def)
qed

lemma findActiveAreas_subset: "set (findActiveAreas st uid) \<subseteq> set (areas st)"
  unfolding findActiveAreas_def by auto

lemma periodView_spec:
  assumes ids: "\<forall>a \<in> set (areas st). area_id a \<noteq> []"
    and bls: "\<forall>b \<in> set (blocks st). block_areaId b \<noteq> Some []"
  shows "map (withAvailability
           (list_ex (\<lambda>b. \<not> truthy b) (findBlocks st uid (startOfDay day) (endOfDay day) ps))
           (set (concat (map (\<lambda>b. case b of Some k \<Rightarrow> [k] | None \<Rightarrow> [])
                 (filter truthy (findBlocks st uid (startOfDay day) (endOfDay day) ps)))))
           (usedMapOf (groupedInWindow st from to)) capOf)
          (map (withResolvedPhoto ib) (findActiveAreas st uid)) =
         map (\<lambda>a. withRemaining ib a
                (remainingSpec (blockedSpec st uid (area_id a) day (set ps))
                   (capOf (withResolvedPhoto ib a)) (usedSpec st (area_id a) from to)))
             (findActiveAreas st uid)"
proof -
  have "\<And>a. a \<in> set (findActiveAreas st uid) \<Longrightarrow> area_id a \<noteq> []"
    using ids findActiveAreas_subset by blast
  then show ?thesis
    unfolding map_map comp_def
    by (intro map_cong refl withAvailability_spec[OF _ bls])
qed

text \<open>
  Claim C2. Queried with a date and a time, the service returns, for every active area
  of the unit, \<open>remaining = max 0 (capacity - used)\<close> for the period of the time, where
  \<open>used\<close> sums \<open>people + kids\<close> over exactly the reservations of the area in status
  AWAITING_CHECKIN or CHECKED_IN dated inside the window of the period on the day, and
  \<open>remaining = 0\<close> when a PERIOD block of the unit dated within the day has that period or
  ALL_DAY and no area or this area. Identifiers are non-empty strings.
\<close>

theorem listByUnitPublic_period_remaining:
  assumes "uid \<noteq> []" and "d \<noteq> []" and "t \<noteq> []"
    and "\<forall>a \<in> set (areas st). area_id a \<noteq> []"
    and "\<forall>b \<in> set (blocks st). block_areaId b \<noteq> Some []"
  shows "listByUnitPublic parse now ib st uid (Some d) (Some t) =
     (let day = (case parse d of Some p \<Rightarrow> p | None \<Rightarrow> now);
          P = clampToBusinessWindow (if isValidHHmm (Some t) then t else ''12:00'')
      in map (\<lambda>a. withRemaining ib a
                (remainingSpec
                   (blockedSpec st uid (area_id a) day {ALL_DAY, toBlockPeriod P})
                   (periodCapSpec a P)
                   (usedSpec st (area_id a) (fst (periodWindowSpec day P))
                                            (snd (periodWindowSpec day P)))))
             (findActiveAreas st uid))"
proof -
  define day where "day = (case parse d of Some p \<Rightarrow> p | None \<Rightarrow> now)"
  define safeTime where "safeTime = (if isValidHHmm (Some t) then t else ''12:00'')"
  define P where "P = clampToBusinessWindow safeTime"
  have e: "endOfDay day = at_date day 23 59 59 999"
    by (simp add: endOfDay_def at_date_def)
  have w: "periodWindow day safeTime =
             (fst (periodWindowSpec day P), snd (periodWindowSpec day P), P)"
    unfolding periodWindow_def getPeriodFromHM_def Let_def P_def[symmetric]
    by (cases P) (simp_all add: periodWindowSpec_def e)
  have s: "set [ALL_DAY, if P = AFTERNOON then BLOCK_AFTERNOON else BLOCK_NIGHT] =
             {ALL_DAY, toBlockPeriod P}"
    by (simp add: toBlockPeriod_def)
  have c: "\<And>a. (if P = AFTERNOON then orZeroInt (dto_capacityAfternoon (withResolvedPhoto ib a))
                 else orZeroInt (dto_capacityNight (withResolvedPhoto ib a))) = periodCapSpec a P"
    by (cases P) (simp_all add: periodCapSpec_def orZeroInt_def withResolvedPhoto_def)
  have "listByUnitPublic parse now ib st uid (Some d) (Some t) =
     map (withAvailability
           (list_ex (\<lambda>b. \<not> truthy b) (findBlocks st uid (startOfDay day) (endOfDay day)
               [ALL_DAY, if P = AFTERNOON then BLOCK_AFTERNOON else BLOCK_NIGHT]))
           (set (concat (map (\<lambda>b. case b of Some k \<Rightarrow> [k] | None \<Rightarrow> [])
                 (filter truthy (findBlocks st uid (startOfDay day) (endOfDay day)
               [ALL_DAY, if P = AFTERNOON then BLOCK_AFTERNOON else BLOCK_NIGHT])))))
           (usedMapOf (groupedInWindow st (fst (periodWindowSpec day P))
                                          (snd (periodWindowSpec day P))))
           (\<lambda>a. if P = AFTERNOON then orZeroInt (dto_capacityAfternoon a)
                 else orZeroInt (dto_capacityNight a)))
          (map (withResolvedPhoto ib) (findActiveAreas st uid))"
    unfolding listByUnitPublic_def
    by (simp only: Let_def truthy_def option.case assms(1-3) simp_thms if_False if_True
        day_def[symmetric] safeTime_def[symmetric] w prod.case)
  also have "\<dots> = map (\<lambda>a. withRemaining ib a
                (remainingSpec
                   (blockedSpec st uid (area_id a) day {ALL_DAY, toBlockPeriod P})
                   (periodCapSpec a P)
                   (usedSpec st (area_id a) (fst (periodWindowSpec day P))
                                            (snd (periodWindowSpec day P)))))
             (findActiveAreas st uid)"
    unfolding periodView_spec[OF assms(4,5)] s c ..
  finally show ?thesis
    unfolding Let_def day_def safeTime_def P_def .
qed

lemma clamp_1300: "clampToBusinessWindow ''13:00'' = AFTERNOON"
  by (simp add: clampToBusinessWindow_def Number_str_def isDigit_def digitVal_def
      nthOrUndefined_def orZero_def EVENING_CUTOFF_MIN_def)

lemma findActiveAreas_deck: "findActiveAreas deckStore ''u1'' = [deckArea]"
  by (simp add: findActiveAreas_def deckStore_def deckArea_def)

lemma usedSpec_deck_afternoon:
  "usedSpec deckStore ''a1'' (at_date (march10 0 0) 12 0 0 0) (at_date (march10 0 0) 17 29 59 999) = 8"
  by (simp add: usedSpec_def deckStore_def booking_def march10_def at_date_def dateLe_def
      dayLess_def sameDay_def msOfDay_def)

theorem listByUnitPublic_period_remaining_witness:
  "''u1'' \<noteq> [] \<and> ''2025-03-10'' \<noteq> [] \<and> ''13:00'' \<noteq> [] \<and>
   list_all (\<lambda>a. area_id a \<noteq> []) (areas deckStore) \<and>
   list_all (\<lambda>b. block_areaId b \<noteq> Some []) (blocks deckStore) \<and>
   listByUnitPublic (\<lambda>s. if s = ''2025-03-10'' then Some (march10 0 0) else None)
         (march10 9 0) [] deckStore ''u1''
       (Some ''2025-03-10'') (Some ''13:00'') =
     [withRemaining [] deckArea 2]"
proof -
  have h: "(\<forall>a \<in> set (areas deckStore). area_id a \<noteq> []) \<and>
           (\<forall>b \<in> set (blocks deckStore). block_areaId b \<noteq> Some [])"
    by (simp add: deckStore_def deckArea_def)
  have v: "isValidHHmm (Some ''13:00'')" by (simp add: isValidHHmm_def isDigit_def)
  have b: "\<not> blockedSpec deckStore ''u1'' ''a1'' (march10 0 0) {ALL_DAY, toBlockPeriod AFTERNOON}"
    by (simp add: blockedSpec_def deckStore_def)
  have i: "area_id deckArea = ''a1''" by (simp add: deckArea_def)
  have c: "periodCapSpec deckArea AFTERNOON = 10" by (simp add: periodCapSpec_def deckArea_def)
  show ?thesis
    using listByUnitPublic_period_remaining
      [of "''u1''" "''2025-03-10''" "''13:00''" deckStore
          "\<lambda>s. if s = ''2025-03-10'' then Some (march10 0 0) else None"
          "march10 9 0" "[]"] h
    by (simp add: clamp_1300 v findActiveAreas_deck periodWindowSpec_def
        usedSpec_deck_afternoon b i c remainingSpec_def list_all_iff)
qed

section \<open>The whole-day view\<close>

lemma findBlocks_all_day_only:
  "findBlocks (st\<lparr>blocks := filter (\<lambda>b. block_period b = ALL_DAY) (blocks st)\<rparr>) uid from to [ALL_DAY] =
   findBlocks st uid from to [ALL_DAY]"
  unfolding findBlocks_def
  by (auto intro!: arg_cong[where f = "map block_areaId"] filter_cong)

lemma dayView_unfold:
  assumes "uid \<noteq> []" and "d \<noteq> []" and "\<not> truthy t"
  shows "listByUnitPublic parse now ib st uid (Some d) t =
     map (withAvailability
           (list_ex (\<lambda>b. \<not> truthy b)
              (findBlocks st uid (startOfDay (case parse d of Some p \<Rightarrow> p | None \<Rightarrow> now))
                 (endOfDay (case parse d of Some p \<Rightarrow> p | None \<Rightarrow> now)) [ALL_DAY]))
           (set (concat (map (\<lambda>b. case b of Some k \<Rightarrow> [k] | None \<Rightarrow> [])
              (filter truthy
                (findBlocks st uid (startOfDay (case parse d of Some p \<Rightarrow> p | None \<Rightarrow> now))
                   (endOfDay (case parse d of Some p \<Rightarrow> p | None \<Rightarrow> now)) [ALL_DAY])))))
           (usedMapOf (groupedInWindow st
              (startOfDay (case parse d of Some p \<Rightarrow> p | None \<Rightarrow> now))
              (endOfDay (case parse d of Some p \<Rightarrow> p | None \<Rightarrow> now))))
           (\<lambda>a. orZeroInt (dto_capacityAfternoon a) + orZeroInt (dto_capacityNight a)))
         (map (withResolvedPhoto ib) (findActiveAreas st uid))"
proof -
  have td: "truthy (Some d)" using assms(2) by (simp add: truthy_def)
  show ?thesis
    unfolding listByUnitPublic_def
    by (simp only: Let_def option.case assms(1,3) td simp_thms if_False if_True)
qed

text \<open>
  Claim C6. Queried with a date and no time, the service gives every active area the
  capacity \<open>capacityAfternoon + capacityNight\<close> (each 0 when null), counts the demand
  of the whole calendar day, from 00:00:00.000 to 23:59:59.999, and reports 0 only under
  a block of period ALL_DAY, for the unit or for the area; the blocks of a single period
  can be removed from the store without changing any figure.
\<close>

theorem listByUnitPublic_whole_day:
  assumes "uid \<noteq> []" and "d \<noteq> []" and "t = None \<or> t = Some []"
    and "\<forall>a \<in> set (areas st). area_id a \<noteq> []"
    and "\<forall>b \<in> set (blocks st). block_areaId b \<noteq> Some []"
  shows "listByUnitPublic parse now ib st uid (Some d) t =
     (let day = (case parse d of Some p \<Rightarrow> p | None \<Rightarrow> now)
      in map (\<lambda>a. withRemaining ib a
                (remainingSpec
                   (blockedSpec st uid (area_id a) day {ALL_DAY})
                   ((case capacityAfternoon a of None \<Rightarrow> 0 | Some c \<Rightarrow> c) +
                    (case capacityNight a of None \<Rightarrow> 0 | Some c \<Rightarrow> c))
                   (usedSpec st (area_id a) (at_date day 0 0 0 0) (at_date day 23 59 59 999))))
             (findActiveAreas st uid)) \<and>
   listByUnitPublic parse now ib
       (st\<lparr>blocks := filter (\<lambda>b. block_period b = ALL_DAY) (blocks st)\<rparr>) uid (Some d) t =
     listByUnitPublic parse now ib st uid (Some d) t"
proof -
  define day where "day = (case parse d of Some p \<Rightarrow> p | None \<Rightarrow> now)"
  have nt: "\<not> truthy t" using assms(3) by (auto simp: truthy_def)
  have e: "endOfDay day = at_date day 23 59 59 999" "startOfDay day = at_date day 0 0 0 0"
    by (simp_all add: endOfDay_def startOfDay_def at_date_def)
  have c: "\<And>a. orZeroInt (dto_capacityAfternoon (withResolvedPhoto ib a)) +
               orZeroInt (dto_capacityNight (withResolvedPhoto ib a)) =
               (case capacityAfternoon a of None \<Rightarrow> 0 | Some c \<Rightarrow> c) +
               (case capacityNight a of None \<Rightarrow> 0 | Some c \<Rightarrow> c)"
    by (simp add: orZeroInt_def withResolvedPhoto_def)
  have s: "set [ALL_DAY] = {ALL_DAY}" by simp
  have first: "listByUnitPublic parse now ib st uid (Some d) t =
     map (\<lambda>a. withRemaining ib a
                (remainingSpec
                   (blockedSpec st uid (area_id a) day {ALL_DAY})
                   ((case capacityAfternoon a of None \<Rightarrow> 0 | Some c \<Rightarrow> c) +
                    (case capacityNight a of None \<Rightarrow> 0 | Some c \<Rightarrow> c))
                   (usedSpec st (area_id a) (at_date day 0 0 0 0) (at_date day 23 59 59 999))))
             (findActiveAreas st uid)"
    unfolding dayView_unfold[OF assms(1,2) nt] day_def[symmetric]
      periodView_spec[OF assms(4,5)] s c
    unfolding e ..
  have g: "\<And>from to. groupedInWindow
             (st\<lparr>blocks := filter (\<lambda>b. block_period b = ALL_DAY) (blocks st)\<rparr>) from to =
           groupedInWindow st from to"
    by (simp add: groupedInWindow_def)
  have a: "findActiveAreas (st\<lparr>blocks := filter (\<lambda>b. block_period b = ALL_DAY) (blocks st)\<rparr>) uid =
           findActiveAreas st uid"
    by (simp add: findActiveAreas_def)
  have second: "listByUnitPublic parse now ib
       (st\<lparr>blocks := filter (\<lambda>b. block_period b = ALL_DAY) (blocks st)\<rparr>) uid (Some d) t =
     listByUnitPublic parse now ib st uid (Some d) t"
    unfolding dayView_unfold[OF assms(1,2) nt] findBlocks_all_day_only g a ..
  show ?thesis using first second unfolding Let_def day_def by simp
qed

lemma usedSpec_deck_day:
  "usedSpec deckStoreBlocked ''a1'' (at_date (march10 0 0) 0 0 0 0)
      (at_date (march10 0 0) 23 59 59 999) = 12"
  by (simp add: usedSpec_def deckStoreBlocked_def deckStore_def booking_def march10_def
      at_date_def dateLe_def dayLess_def sameDay_def msOfDay_def)

theorem listByUnitPublic_whole_day_witness:
  "''u1'' \<noteq> [] \<and> ''2025-03-10'' \<noteq> [] \<and>
   list_all (\<lambda>a. area_id a \<noteq> []) (areas deckStoreBlocked) \<and>
   list_all (\<lambda>b. block_areaId b \<noteq> Some []) (blocks deckStoreBlocked) \<and>
   map block_period (blocks deckStoreBlocked) = [BLOCK_AFTERNOON] \<and>
   listByUnitPublic (\<lambda>s. if s = ''2025-03-10'' then Some (march10 0 0) else None)
         (march10 9 0) [] deckStoreBlocked ''u1''
       (Some ''2025-03-10'') None =
     [withRemaining [] deckArea 5]"
proof -
  have h: "(\<forall>a \<in> set (areas deckStoreBlocked). area_id a \<noteq> []) \<and>
           (\<forall>b \<in> set (blocks deckStoreBlocked). block_areaId b \<noteq> Some [])"
    by (simp add: deckStoreBlocked_def deckStore_def deckArea_def)
  have b: "\<not> blockedSpec deckStoreBlocked ''u1'' ''a1'' (march10 0 0) {ALL_DAY}"
    by (simp add: blockedSpec_def deckStoreBlocked_def deckStore_def)
  have i: "area_id deckArea = ''a1''" "capacityAfternoon deckArea = Some 10"
    "capacityNight deckArea = Some 7" by (simp_all add: deckArea_def)
  have f: "findActiveAreas deckStoreBlocked ''u1'' = [deckArea]"
    by (simp add: findActiveAreas_def deckStoreBlocked_def deckStore_def deckArea_def)
  have p: "map block_period (blocks deckStoreBlocked) = [BLOCK_AFTERNOON]"
    by (simp add: deckStoreBlocked_def)
  show ?thesis
    using listByUnitPublic_whole_day
      [of "''u1''" "''2025-03-10''" None deckStoreBlocked
          "\<lambda>s. if s = ''2025-03-10'' then Some (march10 0 0) else None"
          "march10 9 0" "[]"] h p
    by (simp add: f usedSpec_deck_day b i remainingSpec_def list_all_iff)
qed

section \<open>Reservations before noon and the afternoon total\<close>

lemma prenoon_outside_afternoon:
  assumes "validDate rd" and "hours rd < 12"
  shows "\<not> inWindow (at_date day 12 0 0 0) (at_date day 17 29 59 999) rd"
  using assms
  unfolding inWindow_def dateLe_def dayLess_def sameDay_def msOfDay_def at_date_def validDate_def
  by auto

lemma groupedInWindow_insert_outside:
  assumes "\<not> inWindow from to (reservationDate r)"
  shows "groupedInWindow (insertReservation r st) from to = groupedInWindow st from to"
  using assms by (simp add: groupedInWindow_def insertReservation_def)

lemma periodView_unfold:
  assumes "uid \<noteq> []" and "d \<noteq> []" and "t \<noteq> []"
  shows "listByUnitPublic parse now ib st uid (Some d) (Some t) =
     (case periodWindow (case parse d of Some p \<Rightarrow> p | None \<Rightarrow> now)
             (if isValidHHmm (Some t) then t else ''12:00'') of
        (from, to, currentPeriod) \<Rightarrow>
          map (withAvailability
             (list_ex (\<lambda>b. \<not> truthy b)
                (findBlocks st uid (startOfDay (case parse d of Some p \<Rightarrow> p | None \<Rightarrow> now))
                   (endOfDay (case parse d of Some p \<Rightarrow> p | None \<Rightarrow> now))
                   [ALL_DAY, if currentPeriod = AFTERNOON then BLOCK_AFTERNOON else BLOCK_NIGHT]))
             (set (concat (map (\<lambda>b. case b of Some k \<Rightarrow> [k] | None \<Rightarrow> [])
                (filter truthy
                  (findBlocks st uid (startOfDay (case parse d of Some p \<Rightarrow> p | None \<Rightarrow> now))
                     (endOfDay (case parse d of Some p \<Rightarrow> p | None \<Rightarrow> now))
                     [ALL_DAY, if currentPeriod = AFTERNOON then BLOCK_AFTERNOON else BLOCK_NIGHT])))))
             (usedMapOf (groupedInWindow st from to))
             (\<lambda>a. if currentPeriod = AFTERNOON then orZeroInt (dto_capacityAfternoon a)
                   else orZeroInt (dto_capacityNight a)))
           (map (withResolvedPhoto ib) (findActiveAreas st uid)))"
  unfolding listByUnitPublic_def
  by (simp only: Let_def truthy_def option.case assms simp_thms if_False if_True)

text \<open>
  A reservation dated before 12:00 lies outside the window that the aggregation reads
  for the afternoon: the availability of every query whose time is classified AFTERNOON
  is the same with the reservation in the store as without it.
\<close>

lemma prenoon_not_in_afternoon_used:
  assumes "validDate (reservationDate r)" and "hours (reservationDate r) < 12"
    and "uid \<noteq> []" and "d \<noteq> []" and "t \<noteq> []"
    and "clampToBusinessWindow (if isValidHHmm (Some t) then t else ''12:00'') = AFTERNOON"
  shows "getPeriodFromDate (reservationDate r) = AFTERNOON \<and>
         listByUnitPublic parse now ib (insertReservation r st) uid (Some d) (Some t) =
         listByUnitPublic parse now ib st uid (Some d) (Some t)"
proof -
  define day where "day = (case parse d of Some p \<Rightarrow> p | None \<Rightarrow> now)"
  have p: "getPeriodFromDate (reservationDate r) = AFTERNOON"
    using assms(1,2)
    by (simp add: getPeriodFromDate_def Let_def validDate_def EVENING_CUTOFF_MIN_def)
  have w: "periodWindow day (if isValidHHmm (Some t) then t else ''12:00'') =
             (at_date day 12 0 0 0, at_date day 17 29 59 999, AFTERNOON)"
    unfolding periodWindow_def getPeriodFromHM_def assms(6) by simp
  have g: "groupedInWindow (insertReservation r st) (at_date day 12 0 0 0) (at_date day 17 29 59 999) =
           groupedInWindow st (at_date day 12 0 0 0) (at_date day 17 29 59 999)"
    by (rule groupedInWindow_insert_outside[OF prenoon_outside_afternoon[OF assms(1,2)]])
  have f: "\<And>a b ps. findBlocks (insertReservation r st) uid a b ps = findBlocks st uid a b ps"
    by (simp add: findBlocks_def insertReservation_def)
  have a: "findActiveAreas (insertReservation r st) uid = findActiveAreas st uid"
    by (simp add: findActiveAreas_def insertReservation_def)
  have "listByUnitPublic parse now ib (insertReservation r st) uid (Some d) (Some t) =
         listByUnitPublic parse now ib st uid (Some d) (Some t)"
    unfolding periodView_unfold[OF assms(3,4,5)] day_def[symmetric] w prod.case g f a ..
  with p show ?thesis by simp
qed

section \<open>Malformed dates and times, and the clock\<close>

lemma sameDay_windows:
  assumes "sameDay p q"
  shows "startOfDay p = startOfDay q" and "endOfDay p = endOfDay q"
    and "periodWindow p s = periodWindow q s"
  using assms
  by (simp_all add: sameDay_def startOfDay_def endOfDay_def periodWindow_def at_date_def Let_def)

lemma listByUnitPublic_same_day:
  assumes "sameDay (case parse1 d1 of Some p \<Rightarrow> p | None \<Rightarrow> now1)
                   (case parse2 d2 of Some p \<Rightarrow> p | None \<Rightarrow> now2)"
    and "d1 \<noteq> []" and "d2 \<noteq> []"
  shows "listByUnitPublic parse1 now1 ib st uid (Some d1) t =
         listByUnitPublic parse2 now2 ib st uid (Some d2) t"
proof (cases "uid = []")
  case True
  then show ?thesis by (simp add: listByUnitPublic_def)
next
  case u: False
  note w = sameDay_windows[OF assms(1)]
  show ?thesis
  proof (cases "truthy t")
    case True
    then obtain s where s: "t = Some s" "s \<noteq> []"
      by (auto simp: truthy_def split: option.splits)
    show ?thesis
      unfolding s(1) periodView_unfold[OF u assms(2) s(2)] periodView_unfold[OF u assms(3) s(2)]
        w ..
  next
    case False
    show ?thesis
      unfolding dayView_unfold[OF u assms(2) False] dayView_unfold[OF u assms(3) False] w ..
  qed
qed

lemma listByUnitPublic_safeTime:
  assumes "t \<noteq> []" and "\<not> isValidHHmm (Some t)"
  shows "listByUnitPublic parse now ib st uid dOpt (Some t) =
         listByUnitPublic parse now ib st uid dOpt (Some ''12:00'')"
proof (cases "uid = [] \<or> \<not> truthy dOpt")
  case True
  then show ?thesis by (auto simp: listByUnitPublic_def Let_def)
next
  case False
  then obtain d where d: "dOpt = Some d" "d \<noteq> []" and u: "uid \<noteq> []"
    by (auto simp: truthy_def split: option.splits)
  have v: "isValidHHmm (Some ''12:00'')" by (simp add: isValidHHmm_def isDigit_def)
  have n: "''12:00'' \<noteq> []" by simp
  show ?thesis
    unfolding d(1) periodView_unfold[OF u d(2) assms(1)] periodView_unfold[OF u d(2) n]
    using assms(2) v by simp
qed

text \<open>
  Claim C10, as amended. The service returns a list on every input. A non-empty time
  that is not two digits, a colon and two digits gives the result of the time 12:00. A
  non-empty date that the parser finds invalid gives the result of any date of the
  current calendar day. An empty time gives the result of an absent time, the whole-day
  view, and an empty date the result of an absent date, the list of the active areas
  without figures.
\<close>

theorem listByUnitPublic_malformed_input:
  "(t \<noteq> [] \<and> \<not> isValidHHmm (Some t) \<longrightarrow>
      listByUnitPublic parse now ib st uid dOpt (Some t) =
      listByUnitPublic parse now ib st uid dOpt (Some ''12:00'')) \<and>
   (d \<noteq> [] \<and> parse d = None \<and> d' \<noteq> [] \<and> parse d' = Some p \<and> sameDay p now \<longrightarrow>
      listByUnitPublic parse now ib st uid (Some d) tOpt =
      listByUnitPublic parse now ib st uid (Some d') tOpt) \<and>
   listByUnitPublic parse now ib st uid dOpt (Some []) =
     listByUnitPublic parse now ib st uid dOpt None \<and>
   listByUnitPublic parse now ib st uid (Some []) tOpt =
     listByUnitPublic parse now ib st uid None tOpt \<and>
   listByUnitPublic parse now ib st uid None tOpt =
     (if uid = [] then [] else map (withResolvedPhoto ib) (findActiveAreas st uid))"
proof (intro conjI impI)
  assume "t \<noteq> [] \<and> \<not> isValidHHmm (Some t)"
  then show "listByUnitPublic parse now ib st uid dOpt (Some t) =
      listByUnitPublic parse now ib st uid dOpt (Some ''12:00'')"
    using listByUnitPublic_safeTime by blast
next
  assume a: "d \<noteq> [] \<and> parse d = None \<and> d' \<noteq> [] \<and> parse d' = Some p \<and> sameDay p now"
  then have "sameDay (case parse d of Some p \<Rightarrow> p | None \<Rightarrow> now)
                     (case parse d' of Some p \<Rightarrow> p | None \<Rightarrow> now)"
    by (simp add: sameDay_def)
  then show "listByUnitPublic parse now ib st uid (Some d) tOpt =
      listByUnitPublic parse now ib st uid (Some d') tOpt"
    using a listByUnitPublic_same_day by blast
next
  show "listByUnitPublic parse now ib st uid dOpt (Some []) =
     listByUnitPublic parse now ib st uid dOpt None"
    by (simp add: listByUnitPublic_def truthy_def Let_def)
next
  show "listByUnitPublic parse now ib st uid (Some []) tOpt =
     listByUnitPublic parse now ib st uid None tOpt"
    by (simp add: listByUnitPublic_def truthy_def Let_def)
next
  show "listByUnitPublic parse now ib st uid None tOpt =
     (if uid = [] then [] else map (withResolvedPhoto ib) (findActiveAreas st uid))"
    by (simp add: listByUnitPublic_def truthy_def Let_def)
qed

theorem listByUnitPublic_malformed_input_witness:
  "''1pm'' \<noteq> [] \<and> \<not> isValidHHmm (Some ''1pm'') \<and>
   listByUnitPublic (\<lambda>s. if s = ''2025-03-10'' then Some (march10 0 0) else None)
       (march10 9 0) [] deckStore ''u1'' (Some ''2025-03-10'') (Some ''1pm'') =
   listByUnitPublic (\<lambda>s. if s = ''2025-03-10'' then Some (march10 0 0) else None)
       (march10 9 0) [] deckStore ''u1'' (Some ''2025-03-10'') (Some ''12:00'') \<and>
   sameDay (march10 0 0) (march10 9 0) \<and>
   listByUnitPublic (\<lambda>s. if s = ''2025-03-10'' then Some (march10 0 0) else None)
       (march10 9 0) [] deckStore ''u1'' (Some ''not-a-date'') (Some ''13:00'') =
   listByUnitPublic (\<lambda>s. if s = ''2025-03-10'' then Some (march10 0 0) else None)
       (march10 9 0) [] deckStore ''u1'' (Some ''2025-03-10'') (Some ''13:00'')"
proof -
  have a: "\<not> isValidHHmm (Some ''1pm'')" by (simp add: isValidHHmm_def)
  have s: "sameDay (march10 0 0) (march10 9 0)" by (simp add: sameDay_def march10_def)
  show ?thesis
    using listByUnitPublic_malformed_input
      [of "''1pm''" "\<lambda>s. if s = ''2025-03-10'' then Some (march10 0 0) else None"
          "march10 9 0" "[]" deckStore "''u1''" "Some ''2025-03-10''"
          "''not-a-date''" "''2025-03-10''" "march10 0 0" "Some ''13:00''"]
      a s
    by simp
qed

text \<open>
  The claim as written fails at the empty time string, which does not match the pattern
  and yet is not treated as 12:00: the service takes the whole-day branch and reports 5
  seats where the time 12:00 reports 2.
\<close>

theorem empty_time_counterexample:
  "\<not> isValidHHmm (Some []) \<and>
   map remaining (listByUnitPublic (\<lambda>s. if s = ''2025-03-10'' then Some (march10 0 0) else None)
         (march10 9 0) [] deckStore ''u1''
       (Some ''2025-03-10'') (Some [])) = [Some 5] \<and>
   map remaining (listByUnitPublic (\<lambda>s. if s = ''2025-03-10'' then Some (march10 0 0) else None)
         (march10 9 0) [] deckStore ''u1''
       (Some ''2025-03-10'') (Some ''12:00'')) = [Some 2]"
proof -
  have v: "isValidHHmm (Some ''12:00'')" by (simp add: isValidHHmm_def isDigit_def)
  have c: "clampToBusinessWindow ''12:00'' = AFTERNOON"
    by (simp add: clampToBusinessWindow_def Number_str_def isDigit_def digitVal_def
      nthOrUndefined_def orZero_def EVENING_CUTOFF_MIN_def)
  have w: "periodWindow (march10 0 0) ''12:00'' =
     (at_date (march10 0 0) 12 0 0 0, at_date (march10 0 0) 17 29 59 999, AFTERNOON)"
    by (simp add: periodWindow_def getPeriodFromHM_def c)
  have b: "\<And>ps. findBlocks deckStore ''u1'' (startOfDay (march10 0 0)) (endOfDay (march10 0 0)) ps = []"
    by (simp add: findBlocks_def deckStore_def)
  have g: "groupedInWindow deckStore (at_date (march10 0 0) 12 0 0 0)
                (at_date (march10 0 0) 17 29 59 999) =
           [\<lparr>g_areaId = Some ''a1'', sum_people = Some 6, sum_kids = Some 2\<rparr>]"
    by (simp add: groupedInWindow_def groupByAreaId_def deckStore_def booking_def march10_def
        at_date_def inWindow_def dateLe_def dayLess_def sameDay_def msOfDay_def countedStatus_def)
  have gd: "groupedInWindow deckStore (startOfDay (march10 0 0)) (endOfDay (march10 0 0)) =
           [\<lparr>g_areaId = Some ''a1'', sum_people = Some 10, sum_kids = Some 2\<rparr>]"
    by (simp add: groupedInWindow_def groupByAreaId_def deckStore_def booking_def march10_def
        startOfDay_def endOfDay_def inWindow_def dateLe_def dayLess_def sameDay_def msOfDay_def
        countedStatus_def)
  have l12: "map remaining (listByUnitPublic (\<lambda>s. if s = ''2025-03-10'' then Some (march10 0 0) else None)
        (march10 9 0) [] deckStore ''u1''
       (Some ''2025-03-10'') (Some ''12:00'')) = [Some 2]"
    unfolding periodView_unfold[of "''u1''" "''2025-03-10''" "''12:00''", simplified]
    by (simp add: v w b g findActiveAreas_deck withAvailability_def
        withResolvedPhoto_def deckArea_def usedMapOf_def orZeroInt_def)
  have nt: "\<not> truthy (Some [])" by (simp add: truthy_def)
  have le: "map remaining (listByUnitPublic (\<lambda>s. if s = ''2025-03-10'' then Some (march10 0 0) else None)
        (march10 9 0) [] deckStore ''u1''
       (Some ''2025-03-10'') (Some [])) = [Some 5]"
    unfolding dayView_unfold[of "''u1''" "''2025-03-10''" "Some []", simplified, OF nt]
    by (simp add: b gd findActiveAreas_deck withAvailability_def
        withResolvedPhoto_def deckArea_def usedMapOf_def orZeroInt_def)
  show ?thesis using l12 le by (simp add: isValidHHmm_def)
qed

text \<open>
  Claim C8, as amended. The service writes nothing, and its output is a function of the
  store, the environment and the three arguments alone whenever the date is absent,
  empty or found valid by the parser: two calls on the same store then return the same
  list, whatever the clock shows. With a date the parser finds invalid the output
  follows the clock, and two calls agree when they happen on the same calendar day.
\<close>

theorem listByUnitPublic_repeatable:
  assumes "dOpt = None \<or> dOpt = Some [] \<or> (\<exists>d p. dOpt = Some d \<and> parse d = Some p) \<or>
           sameDay now1 now2"
  shows "listByUnitPublic parse now1 ib st uid dOpt tOpt =
         listByUnitPublic parse now2 ib st uid dOpt tOpt"
proof (cases "truthy dOpt")
  case False
  then show ?thesis by (simp add: listByUnitPublic_def Let_def)
next
  case True
  then obtain d where d: "dOpt = Some d" "d \<noteq> []"
    by (auto simp: truthy_def split: option.splits)
  have "sameDay (case parse d of Some p \<Rightarrow> p | None \<Rightarrow> now1)
                (case parse d of Some p \<Rightarrow> p | None \<Rightarrow> now2)"
    using assms d by (auto simp: sameDay_def split: option.splits)
  then show ?thesis
    unfolding d(1) by (rule listByUnitPublic_same_day[OF _ d(2) d(2)])
qed

theorem listByUnitPublic_repeatable_witness:
  "listByUnitPublic (\<lambda>s. if s = ''2025-03-10'' then Some (march10 0 0) else None)
         (march10 9 0) [] deckStore ''u1''
       (Some ''2025-03-10'') (Some ''13:00'') =
   listByUnitPublic (\<lambda>s. if s = ''2025-03-10'' then Some (march10 0 0) else None)
         (march11 9 0) [] deckStore ''u1''
       (Some ''2025-03-10'') (Some ''13:00'')"
  using listByUnitPublic_repeatable
    [of "Some ''2025-03-10''"
        "\<lambda>s. if s = ''2025-03-10'' then Some (march10 0 0) else None"
        "march10 9 0" "march11 9 0" "[]" deckStore "''u1''"
        "Some ''13:00''"]
  by simp

text \<open>
  The claim as written fails at a date that dayjs finds invalid, the string
  \<open>not-a-date\<close>: the same store and the same three arguments give 2 remaining seats when
  the clock shows 10 March and 10 when it shows 11 March.
\<close>

theorem clock_dependence_counterexample:
  "map remaining (listByUnitPublic (\<lambda>s. if s = ''2025-03-10'' then Some (march10 0 0) else None)
         (march10 9 0) [] deckStore ''u1''
       (Some ''not-a-date'') (Some ''13:00'')) = [Some 2] \<and>
   map remaining (listByUnitPublic (\<lambda>s. if s = ''2025-03-10'' then Some (march10 0 0) else None)
         (march11 9 0) [] deckStore ''u1''
       (Some ''not-a-date'') (Some ''13:00'')) = [Some 10]"
proof -
  have v: "isValidHHmm (Some ''13:00'')" by (simp add: isValidHHmm_def isDigit_def)
  have w: "\<And>day. periodWindow day ''13:00'' =
     (at_date day 12 0 0 0, at_date day 17 29 59 999, AFTERNOON)"
    by (simp add: periodWindow_def getPeriodFromHM_def clamp_1300)
  have b: "\<And>a b ps. findBlocks deckStore ''u1'' a b ps = []"
    by (simp add: findBlocks_def deckStore_def)
  have g10: "groupedInWindow deckStore (at_date (march10 9 0) 12 0 0 0)
                (at_date (march10 9 0) 17 29 59 999) =
           [\<lparr>g_areaId = Some ''a1'', sum_people = Some 6, sum_kids = Some 2\<rparr>]"
    by (simp add: groupedInWindow_def groupByAreaId_def deckStore_def booking_def march10_def
        at_date_def inWindow_def dateLe_def dayLess_def sameDay_def msOfDay_def countedStatus_def)
  have g11: "groupedInWindow deckStore (at_date (march11 9 0) 12 0 0 0)
                (at_date (march11 9 0) 17 29 59 999) = []"
    by (simp add: groupedInWindow_def groupByAreaId_def deckStore_def booking_def march10_def
        march11_def at_date_def inWindow_def dateLe_def dayLess_def sameDay_def msOfDay_def
        countedStatus_def)
  have l10: "map remaining (listByUnitPublic (\<lambda>s. if s = ''2025-03-10'' then Some (march10 0 0) else None)
        (march10 9 0) [] deckStore ''u1''
       (Some ''not-a-date'') (Some ''13:00'')) = [Some 2]"
    unfolding periodView_unfold[of "''u1''" "''not-a-date''" "''13:00''", simplified]
    by (simp add: v w b g10 findActiveAreas_deck withAvailability_def
        withResolvedPhoto_def deckArea_def usedMapOf_def orZeroInt_def)
  have l11: "map remaining (listByUnitPublic (\<lambda>s. if s = ''2025-03-10'' then Some (march10 0 0) else None)
        (march11 9 0) [] deckStore ''u1''
       (Some ''not-a-date'') (Some ''13:00'')) = [Some 10]"
    unfolding periodView_unfold[of "''u1''" "''not-a-date''" "''13:00''", simplified]
    by (simp add: v w b g11 findActiveAreas_deck withAvailability_def
        withResolvedPhoto_def deckArea_def usedMapOf_def orZeroInt_def)
  show ?thesis using l10 l11 by simp
qed

section \<open>The order of the checks of the public route\<close>

lemma remdups_constant:
  "xs \<noteq> [] \<Longrightarrow> \<forall>x \<in> set xs. x = c \<Longrightarrow> remdups xs = [c]"
proof (induction xs)
  case Nil
  then show ?case by simp
next
  case (Cons x xs)
  then show ?case by (cases xs) auto
qed

lemma alreadyUsed_is_usedSpec:
  "(case groupByAreaId
          (filter (\<lambda>r. areaId r = Some k \<and> inWindow from to (reservationDate r) \<and>
                        countedStatus (status r)) (reservations st)) of
      [] \<Rightarrow> 0
    | g # _ \<Rightarrow> orZeroInt (sum_people g) + orZeroInt (sum_kids g)) =
   usedSpec st k from to"
proof -
  define F where "F = filter (\<lambda>r. areaId r = Some k \<and> inWindow from to (reservationDate r) \<and>
                        countedStatus (status r)) (reservations st)"
  have u: "usedSpec st k from to = (\<Sum>r\<leftarrow>F. people r + kids r)"
    unfolding usedSpec_def F_def
    by (rule arg_cong[where f = "\<lambda>xs. sum_list (map (\<lambda>r. people r + kids r) xs)"])
       (auto simp: inWindow_def countedStatus_def intro: filter_cong)
  show ?thesis
  proof (cases "F = []")
    case True
    then show ?thesis unfolding u F_def[symmetric] by (simp add: groupByAreaId_def)
  next
    case False
    have a: "\<forall>x \<in> set (map areaId F). x = Some k" unfolding F_def by auto
    have r: "remdups (map areaId F) = [Some k]"
      using remdups_constant[OF _ a] False by simp
    have a0: "\<forall>r \<in> set F. areaId r = Some k" unfolding F_def by simp
    have f: "filter (\<lambda>r. areaId r = Some k) F = F" using a0 by (simp add: filter_id_conv)
    show ?thesis
      unfolding u F_def[symmetric] groupByAreaId_def r
      by (simp add: f orZeroInt_def sum_people_kids)
  qed
qed

lemma blocks_filter_is_blockedSpec:
  "(length (filter (\<lambda>k. block_unitId k = uid \<and> block_mode k = PERIOD \<and>
                        dateLe (startOfDay dt) (block_date k) \<and>
                        dateLe (block_date k) (endOfDay dt) \<and>
                        block_period k \<in> set [ALL_DAY, p] \<and>
                        (block_areaId k = None \<or> block_areaId k = Some a))
                   (blocks st)) > 0) =
   blockedSpec st uid a dt {ALL_DAY, p}"
  unfolding blockedSpec_def length_greater_0_conv filter_empty_conv by auto

lemma postCheck_cascade:
  "postCheck st b =
     (if \<not> basicValid b then Inl VALIDATION
      else if contactHasActive st b then Inl ALREADY_HAS_ACTIVE_RESERVATION
      else if \<not> unitResolves st b then Inl UNIT_NOT_FOUND
      else if \<not> areaResolves st b then Inl AREA_NOT_FOUND
      else
        (let dt = (case body_reservationDate b of Some d \<Rightarrow> d | None \<Rightarrow> undefined);
             uid = strOrEmpty (body_unitId b);
             aid = strOrEmpty (body_areaId b)
         in
         if blockedSpec st uid aid dt {ALL_DAY, toBlockPeriod (getPeriodFromDate dt)}
         then Inl BLOCKED_DAY
         else if requestedSeats b > remainingFor st aid dt
         then Inl (NO_CAPACITY (remainingFor st aid dt) (getPeriodFromDate dt))
         else Inr \<lparr>adm_people = max 0 (orZeroInt (body_people b)),
                   adm_kids = max 0 (orZeroInt (body_kids b)),
                   adm_date = dt, adm_unitId = uid, adm_areaId = aid,
                   adm_email = toLowerEmail (body_email b),
                   adm_phone = normPhone (body_phone b)\<rparr>))"
proof (cases "basicValid b")
  case False
  then show ?thesis
    unfolding postCheck_def basicValid_def Let_def
    by (auto split: option.splits)
next
  case bv: True
  then obtain dt uid aid where dt: "body_reservationDate b = Some dt"
    and uid: "body_unitId b = Some uid" and aid: "body_areaId b = Some aid"
    by (auto simp: basicValid_def truthy_def split: option.splits)
  have pre: "\<not> (fullName b = [] \<or> length (trim (fullName b)) < 3)"
    "\<not> (orZeroInt (body_people b) = 0 \<or> orZeroInt (body_people b) < 1)"
    "truthy (body_unitId b)" "truthy (body_areaId b)"
    using bv by (auto simp: basicValid_def trim_def)
  show ?thesis
  proof (cases "contactHasActive st b")
    case True
    then have "(truthy (toLowerEmail (body_email b)) \<or> truthy (normPhone (body_phone b))) \<and>
       list_ex (\<lambda>r. status r = AWAITING_CHECKIN \<and>
                     ((truthy (toLowerEmail (body_email b)) \<and> email r = toLowerEmail (body_email b)) \<or>
                      (truthy (normPhone (body_phone b)) \<and> phone r = normPhone (body_phone b))))
               (reservations st)"
      unfolding contactHasActive_def list_ex_iff by blast
    then show ?thesis
      unfolding postCheck_def Let_def using pre dt bv True by simp
  next
    case nd: False
    then have ndc: "\<not> ((truthy (toLowerEmail (body_email b)) \<or> truthy (normPhone (body_phone b))) \<and>
       list_ex (\<lambda>r. status r = AWAITING_CHECKIN \<and>
                     ((truthy (toLowerEmail (body_email b)) \<and> email r = toLowerEmail (body_email b)) \<or>
                      (truthy (normPhone (body_phone b)) \<and> phone r = normPhone (body_phone b))))
               (reservations st))"
      unfolding contactHasActive_def list_ex_iff by blast
    show ?thesis
    proof (cases "find (\<lambda>u. Some (unit_id u) = body_unitId b) (units st)")
      case None
      then have "\<not> unitResolves st b" by (simp add: unitResolves_def)
      then show ?thesis
        unfolding postCheck_def Let_def using pre dt bv nd ndc None by simp
    next
      case (Some u)
      then have uu: "unit_id u = uid" using uid by (auto dest: find_Some_iff[THEN iffD1])
      show ?thesis
      proof (cases "unit_isActive u")
        case False
        then have "\<not> unitResolves st b" using Some by (simp add: unitResolves_def)
        then show ?thesis
          unfolding postCheck_def Let_def using pre dt bv nd ndc Some False by simp
      next
        case ua: True
        then have ur: "unitResolves st b" using Some by (simp add: unitResolves_def)
        show ?thesis
        proof (cases "find (\<lambda>a. Some (area_id a) = body_areaId b) (areas st)")
          case None
          then have "\<not> areaResolves st b" by (simp add: areaResolves_def)
          then show ?thesis
            unfolding postCheck_def Let_def using pre dt bv nd ndc Some ua ur None by simp
        next
          case sa: (Some a)
          then have aa: "area_id a = aid" using aid by (auto dest: find_Some_iff[THEN iffD1])
          show ?thesis
          proof (cases "area_isActive a \<and> area_unitId a = unit_id u")
            case False
            then have "\<not> areaResolves st b" using sa uu uid by (auto simp: areaResolves_def)
            then show ?thesis
              unfolding postCheck_def Let_def using pre dt bv nd ndc Some ua ur sa False by auto
          next
            case ok: True
            then have ar: "areaResolves st b" using sa uu uid by (auto simp: areaResolves_def)
            have fa: "find (\<lambda>r. area_id r = aid) (areas st) = Some a"
              using sa aid by (simp add: eq_commute)
            have cap: "(if getPeriodFromDate dt = AFTERNOON then orZeroInt (capacityAfternoon a)
                        else orZeroInt (capacityNight a)) =
                       periodCapacity st aid (getPeriodFromDate dt)"
              by (simp add: periodCapacity_def fa)
            have tb: "(if getPeriodFromDate dt = AFTERNOON then BLOCK_AFTERNOON else BLOCK_NIGHT) =
                      toBlockPeriod (getPeriodFromDate dt)"
              by (simp add: toBlockPeriod_def)
            obtain wfrom wto where w: "periodWindowDate dt = (wfrom, wto)"
              by (cases "periodWindowDate dt")
            have rem: "max 0 (periodCapacity st aid (getPeriodFromDate dt) - usedSpec st aid wfrom wto) =
                       remainingFor st aid dt"
              by (simp add: remainingFor_def w)
            have ok1: "area_isActive a" and ok2: "area_unitId a = unit_id u" using ok by simp_all
            have lhs: "postCheck st b =
               (if blockedSpec st uid aid dt {ALL_DAY, toBlockPeriod (getPeriodFromDate dt)}
                then Inl BLOCKED_DAY
                else if max 0 (orZeroInt (body_people b)) + max 0 (orZeroInt (body_kids b)) >
                        remainingFor st aid dt
                then Inl (NO_CAPACITY (remainingFor st aid dt) (getPeriodFromDate dt))
                else Inr \<lparr>adm_people = max 0 (orZeroInt (body_people b)),
                   adm_kids = max 0 (orZeroInt (body_kids b)),
                   adm_date = dt, adm_unitId = uid, adm_areaId = aid,
                   adm_email = toLowerEmail (body_email b),
                   adm_phone = normPhone (body_phone b)\<rparr>)"
              unfolding postCheck_def
              apply (simp only: Let_def pre dt ndc Some ua sa ok1 ok2 option.case if_False if_True
                  simp_thms w prod.case)
              apply (simp only: blocks_filter_is_blockedSpec alreadyUsed_is_usedSpec tb)
              apply (simp only: uu aa cap rem)
              done
            have rhs: "(if \<not> basicValid b then Inl VALIDATION
      else if contactHasActive st b then Inl ALREADY_HAS_ACTIVE_RESERVATION
      else if \<not> unitResolves st b then Inl UNIT_NOT_FOUND
      else if \<not> areaResolves st b then Inl AREA_NOT_FOUND
      else
        (let dt = (case body_reservationDate b of Some d \<Rightarrow> d | None \<Rightarrow> undefined);
             uid = strOrEmpty (body_unitId b);
             aid = strOrEmpty (body_areaId b)
         in
         if blockedSpec st uid aid dt {ALL_DAY, toBlockPeriod (getPeriodFromDate dt)}
         then Inl BLOCKED_DAY
         else if requestedSeats b > remainingFor st aid dt
         then Inl (NO_CAPACITY (remainingFor st aid dt) (getPeriodFromDate dt))
         else Inr \<lparr>adm_people = max 0 (orZeroInt (body_people b)),
                   adm_kids = max 0 (orZeroInt (body_kids b)),
                   adm_date = dt, adm_unitId = uid, adm_areaId = aid,
                   adm_email = toLowerEmail (body_email b),
                   adm_phone = normPhone (body_phone b)\<rparr>)) =
               (if blockedSpec st uid aid dt {ALL_DAY, toBlockPeriod (getPeriodFromDate dt)}
                then Inl BLOCKED_DAY
                else if max 0 (orZeroInt (body_people b)) + max 0 (orZeroInt (body_kids b)) >
                        remainingFor st aid dt
                then Inl (NO_CAPACITY (remainingFor st aid dt) (getPeriodFromDate dt))
                else Inr \<lparr>adm_people = max 0 (orZeroInt (body_people b)),
                   adm_kids = max 0 (orZeroInt (body_kids b)),
                   adm_date = dt, adm_unitId = uid, adm_areaId = aid,
                   adm_email = toLowerEmail (body_email b),
                   adm_phone = normPhone (body_phone b)\<rparr>)"
              by (simp only: bv nd ur ar dt uid aid strOrEmpty_def requestedSeats_def Let_def
                  option.case if_False if_True simp_thms)
            show ?thesis unfolding lhs rhs ..
          qed
        qed
      qed
    qed
  qed
qed

text \<open>
  Claim C4, as amended. After the validation of the fields, the public route tests the
  contact first (ALREADY_HAS_ACTIVE_RESERVATION), then the unit (UNIT_NOT_FOUND), the
  area (AREA_NOT_FOUND), the blocks (BLOCKED_DAY) and the capacity (NO_CAPACITY), and
  answers with the first test that fails; so a request for a missing or inactive unit
  from a contact that holds a reservation awaiting check-in fails with
  ALREADY_HAS_ACTIVE_RESERVATION. Every failure leaves the store as it was.
\<close>

theorem post_check_order:
  assumes "basicValid b" and "body_reservationDate b = Some dt"
    and "body_unitId b = Some uid" and "body_areaId b = Some aid"
  shows "(contactHasActive st b \<longrightarrow>
            fst (post newId rnd st b) = Inl ALREADY_HAS_ACTIVE_RESERVATION) \<and>
         (\<not> contactHasActive st b \<and> \<not> unitResolves st b \<longrightarrow>
            fst (post newId rnd st b) = Inl UNIT_NOT_FOUND) \<and>
         (\<not> contactHasActive st b \<and> unitResolves st b \<and> \<not> areaResolves st b \<longrightarrow>
            fst (post newId rnd st b) = Inl AREA_NOT_FOUND) \<and>
         (\<not> contactHasActive st b \<and> unitResolves st b \<and> areaResolves st b \<and>
          blockedSpec st uid aid dt {ALL_DAY, toBlockPeriod (getPeriodFromDate dt)} \<longrightarrow>
            fst (post newId rnd st b) = Inl BLOCKED_DAY) \<and>
         (\<not> contactHasActive st b \<and> unitResolves st b \<and> areaResolves st b \<and>
          \<not> blockedSpec st uid aid dt {ALL_DAY, toBlockPeriod (getPeriodFromDate dt)} \<and>
          requestedSeats b > remainingFor st aid dt \<longrightarrow>
            fst (post newId rnd st b) =
              Inl (NO_CAPACITY (remainingFor st aid dt) (getPeriodFromDate dt))) \<and>
         (\<forall>e. fst (post newId rnd st b) = Inl e \<longrightarrow> snd (post newId rnd st b) = st)"
proof -
  have f: "fst (post newId rnd st b) =
             (case postCheck st b of Inl e \<Rightarrow> Inl e
              | Inr adm \<Rightarrow> Inr (createReservation newId rnd st adm))"
    by (simp add: post_def Let_def split: sum.splits)
  have s: "\<forall>e. fst (post newId rnd st b) = Inl e \<longrightarrow> snd (post newId rnd st b) = st"
    by (simp add: post_def Let_def split: sum.splits)
  have c: "postCheck st b =
     (if contactHasActive st b then Inl ALREADY_HAS_ACTIVE_RESERVATION
      else if \<not> unitResolves st b then Inl UNIT_NOT_FOUND
      else if \<not> areaResolves st b then Inl AREA_NOT_FOUND
      else if blockedSpec st uid aid dt {ALL_DAY, toBlockPeriod (getPeriodFromDate dt)}
         then Inl BLOCKED_DAY
         else if requestedSeats b > remainingFor st aid dt
         then Inl (NO_CAPACITY (remainingFor st aid dt) (getPeriodFromDate dt))
         else Inr \<lparr>adm_people = max 0 (orZeroInt (body_people b)),
                   adm_kids = max 0 (orZeroInt (body_kids b)),
                   adm_date = dt, adm_unitId = uid, adm_areaId = aid,
                   adm_email = toLowerEmail (body_email b),
                   adm_phone = normPhone (body_phone b)\<rparr>)"
    unfolding postCheck_cascade
    by (simp only: assms strOrEmpty_def Let_def option.case simp_thms if_False if_True)
  show ?thesis
  proof (intro conjI)
    show "\<forall>e. fst (post newId rnd st b) = Inl e \<longrightarrow> snd (post newId rnd st b) = st"
      by (rule s)
  qed (simp_all add: f c)
qed

lemma basicValid_partyOfThree: "basicValid partyOfThree"
  by (simp add: basicValid_def partyOfThree_def trim_def isSpace_def orZeroInt_def truthy_def)

lemma remainingFor_deck: "remainingFor deckStore ''a1'' (march10 13 0) = 2"
proof -
  have p: "getPeriodFromDate (march10 13 0) = AFTERNOON"
    by (simp add: getPeriodFromDate_def march10_def EVENING_CUTOFF_MIN_def)
  have w: "periodWindowDate (march10 13 0) =
             (at_date (march10 0 0) 12 0 0 0, at_date (march10 0 0) 17 29 59 999)"
    by (simp add: periodWindowDate_def p) (simp add: at_date_def march10_def)
  have c: "periodCapacity deckStore ''a1'' AFTERNOON = 10"
    by (simp add: periodCapacity_def deckStore_def deckArea_def orZeroInt_def)
  show ?thesis
    by (simp add: remainingFor_def p w c usedSpec_deck_afternoon)
qed

theorem post_check_order_witness:
  "basicValid partyOfThree \<and> unitResolves deckStore partyOfThree \<and>
   areaResolves deckStore partyOfThree \<and>
   requestedSeats partyOfThree = 3 \<and> remainingFor deckStore ''a1'' (march10 13 0) = 2 \<and>
   post ''r9'' (\<lambda>i. 0) deckStore partyOfThree = (Inl (NO_CAPACITY 2 AFTERNOON), deckStore)"
proof -
  have h: "body_reservationDate partyOfThree = Some (march10 13 0)"
    "body_unitId partyOfThree = Some ''u1''" "body_areaId partyOfThree = Some ''a1''"
    by (simp_all add: partyOfThree_def)
  have n: "\<not> contactHasActive deckStore partyOfThree"
    by (simp add: contactHasActive_def partyOfThree_def toLowerEmail_def normPhone_def
        truthy_def trim_def toLowerCase_def)
  have u: "unitResolves deckStore partyOfThree"
    by (simp add: unitResolves_def partyOfThree_def deckStore_def)
  have a: "areaResolves deckStore partyOfThree"
    by (simp add: areaResolves_def partyOfThree_def deckStore_def deckArea_def)
  have k: "\<not> blockedSpec deckStore ''u1'' ''a1'' (march10 13 0)
             {ALL_DAY, toBlockPeriod (getPeriodFromDate (march10 13 0))}"
    by (simp add: blockedSpec_def deckStore_def)
  have q: "requestedSeats partyOfThree = 3"
    by (simp add: requestedSeats_def partyOfThree_def orZeroInt_def)
  have p: "getPeriodFromDate (march10 13 0) = AFTERNOON"
    by (simp add: getPeriodFromDate_def march10_def EVENING_CUTOFF_MIN_def)
  have "fst (post ''r9'' (\<lambda>i. 0) deckStore partyOfThree) = Inl (NO_CAPACITY 2 AFTERNOON) \<and>
        snd (post ''r9'' (\<lambda>i. 0) deckStore partyOfThree) = deckStore"
    using post_check_order[OF basicValid_partyOfThree h, of deckStore "''r9''" "\<lambda>i. 0"]
      n u a k q remainingFor_deck p
    by simp
  then have "post ''r9'' (\<lambda>i. 0) deckStore partyOfThree = (Inl (NO_CAPACITY 2 AFTERNOON), deckStore)"
    by (simp add: prod_eq_iff)
  then show ?thesis using basicValid_partyOfThree u a q remainingFor_deck by simp
qed

text \<open>
  The claim as written fails for the request of the example: its unit does not exist
  and its contact holds a reservation awaiting check-in, and the answer is
  ALREADY_HAS_ACTIVE_RESERVATION, not UNIT_NOT_FOUND.
\<close>

theorem unit_before_contact_counterexample:
  "find (\<lambda>u. Some (unit_id u) = body_unitId ghostUnitBody) (units contactStore) = None \<and>
   post ''r9'' (\<lambda>i. 0) contactStore ghostUnitBody =
     (Inl ALREADY_HAS_ACTIVE_RESERVATION, contactStore)"
proof -
  have u: "find (\<lambda>u. Some (unit_id u) = body_unitId ghostUnitBody) (units contactStore) = None"
    by (simp add: ghostUnitBody_def contactStore_def deckStore_def)
  have e: "toLowerEmail (Some ''Ana@Mane.com'') = Some ''ana@mane.com''"
    by code_simp
  have "postCheck contactStore ghostUnitBody = Inl ALREADY_HAS_ACTIVE_RESERVATION"
    by (simp add: postCheck_def ghostUnitBody_def contactStore_def deckStore_def booking_def
        e trim_def isSpace_def orZeroInt_def truthy_def normPhone_def)
  then have "post ''r9'' (\<lambda>i. 0) contactStore ghostUnitBody =
     (Inl ALREADY_HAS_ACTIVE_RESERVATION, contactStore)"
    by (simp add: post_def)
  with u show ?thesis by simp
qed

section \<open>Admission within capacity\<close>

lemma window_of_request:
  assumes "sameDay dt day"
  shows "periodWindowDate dt = periodWindowSpec day (getPeriodFromDate dt)"
  using assms
  by (cases "getPeriodFromDate dt")
     (simp_all add: periodWindowDate_def periodWindowSpec_def at_date_def endOfDay_def sameDay_def)

lemma request_in_window:
  assumes "validDate dt" and "12 \<le> hours dt"
  shows "inWindow (fst (periodWindowDate dt)) (snd (periodWindowDate dt)) dt"
proof (cases "getPeriodFromDate dt")
  case AFTERNOON
  then have m: "hours dt * 60 + minutes dt < 1050"
    using assms(2)
    by (simp add: getPeriodFromDate_def Let_def EVENING_CUTOFF_MIN_def split: if_splits)
  show ?thesis
    using AFTERNOON assms m
    by (simp add: periodWindowDate_def inWindow_def dateLe_def sameDay_def msOfDay_def
        at_date_def validDate_def)
next
  case NIGHT
  then have m: "1050 \<le> hours dt * 60 + minutes dt"
    by (simp add: getPeriodFromDate_def Let_def EVENING_CUTOFF_MIN_def split: if_splits)
  show ?thesis
    using NIGHT assms m
    by (simp add: periodWindowDate_def inWindow_def dateLe_def sameDay_def msOfDay_def
        at_date_def endOfDay_def validDate_def)
qed

lemma usedSpec_insert:
  "usedSpec (insertReservation row st) a wfrom wto =
   usedSpec st a wfrom wto +
     (if areaId row = Some a \<and> countedStatus (status row) \<and>
         inWindow wfrom wto (reservationDate row)
      then people row + kids row else 0)"
  by (auto simp: usedSpec_def insertReservation_def countedStatus_def inWindow_def)

lemma periodCapacity_insert:
  "periodCapacity (insertReservation row st) a p = periodCapacity st a p"
  by (simp add: periodCapacity_def insertReservation_def)

lemma post_step:
  assumes a: "body_areaId b = Some a"
    and d: "body_reservationDate b = Some dt"
    and v: "validDate dt" and h: "12 \<le> hours dt"
    and p: "post newId rnd st b = (r, st')"
  shows "0 \<le> admittedSize r \<and>
         admittedSize r \<le> max 0 (periodCapacity st a (getPeriodFromDate dt) -
             usedSpec st a (fst (periodWindowDate dt)) (snd (periodWindowDate dt))) \<and>
         usedSpec st' a (fst (periodWindowDate dt)) (snd (periodWindowDate dt)) =
           usedSpec st a (fst (periodWindowDate dt)) (snd (periodWindowDate dt)) + admittedSize r \<and>
         (\<forall>q. periodCapacity st' a q = periodCapacity st a q)"
proof (cases "postCheck st b")
  case (Inl e)
  then have "r = Inl e" "st' = st" using p by (simp_all add: post_def)
  then show ?thesis by (simp add: admittedSize_def)
next
  case (Inr adm)
  define row where "row = createReservation newId rnd st adm"
  have r: "r = Inr row" and s: "st' = insertReservation row st"
    using p Inr by (simp_all add: post_def row_def Let_def)
  have adm: "adm = \<lparr>adm_people = max 0 (orZeroInt (body_people b)),
                   adm_kids = max 0 (orZeroInt (body_kids b)),
                   adm_date = dt, adm_unitId = strOrEmpty (body_unitId b), adm_areaId = a,
                   adm_email = toLowerEmail (body_email b),
                   adm_phone = normPhone (body_phone b)\<rparr>"
    and le: "requestedSeats b \<le> remainingFor st a dt"
    using Inr unfolding postCheck_cascade
    by (simp_all add: a d strOrEmpty_def Let_def split: if_splits)
  have sz: "people row + kids row = requestedSeats b"
    by (simp add: row_def createReservation_def adm requestedSeats_def)
  have nn: "0 \<le> requestedSeats b" by (simp add: requestedSeats_def)
  have cnt: "areaId row = Some a \<and> countedStatus (status row) \<and>
             inWindow (fst (periodWindowDate dt)) (snd (periodWindowDate dt)) (reservationDate row)"
    using request_in_window[OF v h]
    by (simp add: row_def createReservation_def adm countedStatus_def)
  show ?thesis
    unfolding r s usedSpec_insert periodCapacity_insert
    using cnt sz nn le by (simp add: admittedSize_def remainingFor_def)
qed

lemma postAll_bound:
  assumes "\<forall>c \<in> set cs. body_areaId (call_body c) = Some a \<and>
              (\<exists>dt. body_reservationDate (call_body c) = Some dt \<and> validDate dt \<and>
                    12 \<le> hours dt \<and> sameDay dt day \<and> getPeriodFromDate dt = P)"
  shows "sum_list (map admittedSize (fst (postAll st cs))) \<le>
           max 0 (periodCapacity st a P -
                  usedSpec st a (fst (periodWindowSpec day P)) (snd (periodWindowSpec day P)))"
  using assms
proof (induction cs arbitrary: st)
  case Nil
  then show ?case by simp
next
  case (Cons c cs)
  obtain dt where c: "body_areaId (call_body c) = Some a"
      "body_reservationDate (call_body c) = Some dt" "validDate dt" "12 \<le> hours dt"
      "sameDay dt day" "getPeriodFromDate dt = P"
    using Cons.prems by auto
  obtain r st' where p: "post (call_newId c) (call_rnd c) st (call_body c) = (r, st')"
    by (cases "post (call_newId c) (call_rnd c) st (call_body c)")
  obtain rs st'' where q: "postAll st' cs = (rs, st'')" by (cases "postAll st' cs")
  have w: "periodWindowDate dt = periodWindowSpec day P"
    using window_of_request[OF c(5)] c(6) by simp
  note step = post_step[OF c(1) c(2) c(3) c(4) p, unfolded w c(6)]
  have ih: "sum_list (map admittedSize rs) \<le>
           max 0 (periodCapacity st' a P -
                  usedSpec st' a (fst (periodWindowSpec day P)) (snd (periodWindowSpec day P)))"
    using Cons.IH[of st'] Cons.prems q by simp
  have e: "postAll st (c # cs) = (r # rs, st'')" using p q by simp
  have s1: "0 \<le> admittedSize r" using step by blast
  have s2: "admittedSize r \<le> max 0 (periodCapacity st a P -
                  usedSpec st a (fst (periodWindowSpec day P)) (snd (periodWindowSpec day P)))"
    using step by blast
  have s3: "usedSpec st' a (fst (periodWindowSpec day P)) (snd (periodWindowSpec day P)) =
            usedSpec st a (fst (periodWindowSpec day P)) (snd (periodWindowSpec day P)) +
            admittedSize r"
    using step by blast
  have s4: "periodCapacity st' a P = periodCapacity st a P" using step by blast
  have "admittedSize r + sum_list (map admittedSize rs) \<le>
           max 0 (periodCapacity st a P -
                  usedSpec st a (fst (periodWindowSpec day P)) (snd (periodWindowSpec day P)))"
    using s1 s2 ih unfolding s3 s4 by linarith
  then show ?case unfolding e by simp
qed
lemma exec_pair:
  assumes k: "k < length cs" and l: "length ans = k" and n: "length cs = k + Suc m"
    and p: "post (call_newId (cs ! k)) (call_rnd (cs ! k)) st (call_body (cs ! k)) = (r, st')"
  shows "exec cs (Insert k) (exec cs (Check k) (st, ans @ replicate (Suc m) Waiting)) =
         (st', (ans @ [Answered r]) @ replicate m Waiting)"
proof -
  have nth: "(ans @ replicate (Suc m) Waiting) ! k = Waiting"
    using l by (simp add: nth_append)
  have len: "k < length (ans @ replicate (Suc m) Waiting)" using l by simp
  have upd: "\<And>x y ys. (ans @ y # ys)[k := x] = ans @ x # ys"
    using l by (simp add: list_update_append)
  show ?thesis
  proof (cases "postCheck st (call_body (cs ! k))")
    case (Inl e)
    then have "r = Inl e" "st' = st" using p by (simp_all add: post_def)
    then show ?thesis
      using k len nth Inl l by (simp add: upd nth_append)
  next
    case (Inr adm)
    then have "r = Inr (createReservation (call_newId (cs ! k)) (call_rnd (cs ! k)) st adm)"
      "st' = insertReservation (createReservation (call_newId (cs ! k)) (call_rnd (cs ! k)) st adm) st"
      using p by (simp_all add: post_def Let_def)
    then show ?thesis
      using k len nth Inr l by (simp add: upd nth_append Let_def)
  qed
qed

lemma run_sequential_from:
  "length cs = k + m \<Longrightarrow> length ans = k \<Longrightarrow>
   fold (exec cs) (sequentialSchedule k (length cs)) (st, ans @ replicate m Waiting) =
   (snd (postAll st (drop k cs)), ans @ map Answered (fst (postAll st (drop k cs))))"
proof (induction m arbitrary: k ans st)
  case 0
  then show ?case by (simp add: sequentialSchedule_def)
next
  case (Suc m)
  have k: "k < length cs" using Suc.prems by simp
  obtain r st' where p: "post (call_newId (cs ! k)) (call_rnd (cs ! k)) st (call_body (cs ! k)) = (r, st')"
    by (cases "post (call_newId (cs ! k)) (call_rnd (cs ! k)) st (call_body (cs ! k))")
  have sch: "sequentialSchedule k (length cs) =
             Check k # Insert k # sequentialSchedule (Suc k) (length cs)"
    using k by (simp add: sequentialSchedule_def upt_conv_Cons)
  have dr: "drop k cs = cs ! k # drop (Suc k) cs" using k by (simp add: Cons_nth_drop_Suc)
  have ih: "fold (exec cs) (sequentialSchedule (Suc k) (length cs))
              (st', (ans @ [Answered r]) @ replicate m Waiting) =
            (snd (postAll st' (drop (Suc k) cs)),
             (ans @ [Answered r]) @ map Answered (fst (postAll st' (drop (Suc k) cs))))"
    using Suc.IH[of "Suc k" "ans @ [Answered r]" st'] Suc.prems by simp
  have pair: "exec cs (Insert k) (exec cs (Check k) (st, ans @ replicate (Suc m) Waiting)) =
         (st', (ans @ [Answered r]) @ replicate m Waiting)"
    using exec_pair[OF k Suc.prems(2) _ p, of m] Suc.prems(1) by simp
  have "fold (exec cs) (sequentialSchedule k (length cs)) (st, ans @ replicate (Suc m) Waiting) =
        fold (exec cs) (sequentialSchedule (Suc k) (length cs))
          (exec cs (Insert k) (exec cs (Check k) (st, ans @ replicate (Suc m) Waiting)))"
    unfolding sch by simp
  also have "\<dots> = (snd (postAll st' (drop (Suc k) cs)),
             (ans @ [Answered r]) @ map Answered (fst (postAll st' (drop (Suc k) cs))))"
    unfolding pair ih ..
  also have "\<dots> = (snd (postAll st (drop k cs)), ans @ map Answered (fst (postAll st (drop k cs))))"
    unfolding dr using p by (simp add: split_beta)
  finally show ?case .
qed

lemma run_sequential:
  "run cs (sequentialSchedule 0 (length cs)) st =
     (snd (postAll st cs), map Answered (fst (postAll st cs)))"
  unfolding run_def
  using run_sequential_from[of cs 0 "length cs" "[]" st] by simp

lemma admittedTotal_Answered:
  "admittedTotal (map Answered rs) = sum_list (map admittedSize rs)"
  by (simp add: admittedTotal_def comp_def)
text \<open>
  Claim C1, as amended. When the create-requests for one area, day and period are served
  one after another, each handler running to its end before the next starts, and each
  asks for a time inside the window of its period (12:00 or later), the sizes of the
  admitted requests sum to at most the seats that remained before the first of them,
  hence to at most the capacity C when the stored demand is not negative.
\<close>

theorem sequential_admission_within_capacity:
  assumes "\<forall>c \<in> set cs. body_areaId (call_body c) = Some a \<and>
              (\<exists>dt. body_reservationDate (call_body c) = Some dt \<and> validDate dt \<and>
                    12 \<le> hours dt \<and> sameDay dt day \<and> getPeriodFromDate dt = P)"
    and "0 \<le> usedSpec st a (fst (periodWindowSpec day P)) (snd (periodWindowSpec day P))"
    and "0 \<le> periodCapacity st a P"
  shows "admittedTotal (snd (run cs (sequentialSchedule 0 (length cs)) st)) \<le>
           max 0 (periodCapacity st a P -
                  usedSpec st a (fst (periodWindowSpec day P)) (snd (periodWindowSpec day P))) \<and>
         admittedTotal (snd (run cs (sequentialSchedule 0 (length cs)) st)) \<le>
           periodCapacity st a P"
proof -
  have "admittedTotal (snd (run cs (sequentialSchedule 0 (length cs)) st)) =
        sum_list (map admittedSize (fst (postAll st cs)))"
    by (simp add: run_sequential admittedTotal_Answered)
  then show ?thesis
    using postAll_bound[OF assms(1), of st] assms(2,3) by linarith
qed

lemma postCheck_onePerson:
  "postCheck oneSeatStore onePerson =
     Inr \<lparr>adm_people = 1, adm_kids = 0, adm_date = march10 13 0, adm_unitId = ''u1'',
          adm_areaId = ''a1'', adm_email = None, adm_phone = None\<rparr>"
proof -
  have b: "basicValid onePerson"
    by (simp add: basicValid_def onePerson_def trim_def isSpace_def orZeroInt_def truthy_def)
  have n: "\<not> contactHasActive oneSeatStore onePerson"
    by (simp add: contactHasActive_def oneSeatStore_def)
  have u: "unitResolves oneSeatStore onePerson"
    by (simp add: unitResolves_def onePerson_def oneSeatStore_def deckStore_def)
  have a: "areaResolves oneSeatStore onePerson"
    by (simp add: areaResolves_def onePerson_def oneSeatStore_def deckArea_def)
  have k: "\<And>ps. \<not> blockedSpec oneSeatStore ''u1'' ''a1'' (march10 13 0) ps"
    by (simp add: blockedSpec_def oneSeatStore_def deckStore_def)
  have r: "remainingFor oneSeatStore ''a1'' (march10 13 0) = 1"
    by (simp add: remainingFor_def usedSpec_def periodCapacity_def oneSeatStore_def deckArea_def
        orZeroInt_def getPeriodFromDate_def march10_def EVENING_CUTOFF_MIN_def)
  have q: "requestedSeats onePerson = 1"
    by (simp add: requestedSeats_def onePerson_def orZeroInt_def)
  have f: "body_reservationDate onePerson = Some (march10 13 0)"
    "body_unitId onePerson = Some ''u1''" "body_areaId onePerson = Some ''a1''"
    "body_people onePerson = Some 1" "body_kids onePerson = Some 0"
    "body_email onePerson = None" "body_phone onePerson = None"
    by (simp_all add: onePerson_def)
  have e: "toLowerEmail None = None" "normPhone None = None"
    by (simp_all add: toLowerEmail_def normPhone_def trim_def toLowerCase_def)
  show ?thesis
    unfolding postCheck_cascade
    by (simp add: b n u a k r q f e strOrEmpty_def orZeroInt_def)
qed

theorem sequential_admission_within_capacity_witness:
  "validDate (march10 13 0) \<and> 12 \<le> hours (march10 13 0) \<and>
   getPeriodFromDate (march10 13 0) = AFTERNOON \<and>
   periodCapacity oneSeatStore ''a1'' AFTERNOON = 1 \<and>
   admittedTotal (snd (run twoCalls (sequentialSchedule 0 (length twoCalls)) oneSeatStore)) \<le> 1"
proof -
  have d: "validDate (march10 13 0) \<and> 12 \<le> hours (march10 13 0) \<and>
           sameDay (march10 13 0) (march10 0 0) \<and> getPeriodFromDate (march10 13 0) = AFTERNOON"
    by (simp add: validDate_def march10_def sameDay_def getPeriodFromDate_def EVENING_CUTOFF_MIN_def)
  have h: "\<forall>c \<in> set twoCalls. body_areaId (call_body c) = Some ''a1'' \<and>
              (\<exists>dt. body_reservationDate (call_body c) = Some dt \<and> validDate dt \<and>
                    12 \<le> hours dt \<and> sameDay dt (march10 0 0) \<and> getPeriodFromDate dt = AFTERNOON)"
    using d by (simp add: twoCalls_def onePerson_def)
  have u: "usedSpec oneSeatStore ''a1'' (fst (periodWindowSpec (march10 0 0) AFTERNOON))
             (snd (periodWindowSpec (march10 0 0) AFTERNOON)) = 0"
    by (simp add: usedSpec_def oneSeatStore_def)
  have c: "periodCapacity oneSeatStore ''a1'' AFTERNOON = 1"
    by (simp add: periodCapacity_def oneSeatStore_def deckArea_def orZeroInt_def)
  show ?thesis
    using sequential_admission_within_capacity[OF h, of oneSeatStore] u c d by simp
qed

text \<open>
  The claim as written fails under interleaving. With one seat and two requests for one
  person each, the schedule that lets both handlers pass the capacity test before either
  inserts admits both: 2 seats against a capacity of 1.
\<close>

theorem interleaved_oversell_counterexample:
  "periodCapacity oneSeatStore ''a1'' AFTERNOON = 1 \<and>
   admittedTotal (snd (run twoCalls [Check 0, Check 1, Insert 0, Insert 1] oneSeatStore)) = 2"
proof -
  have c: "periodCapacity oneSeatStore ''a1'' AFTERNOON = 1"
    by (simp add: periodCapacity_def oneSeatStore_def deckArea_def orZeroInt_def)
  have "admittedTotal (snd (run twoCalls [Check 0, Check 1, Insert 0, Insert 1] oneSeatStore)) = 2"
    by (simp add: run_def twoCalls_def postCheck_onePerson admittedTotal_def admittedSize_def
        createReservation_def Let_def)
  with c show ?thesis by simp
qed

section \<open>The update credit of the staff route\<close>

lemma deck_afternoon_list:
  assumes "t \<noteq> []" and "isValidHHmm (Some t)" and "clampToBusinessWindow t = AFTERNOON"
  shows "listByUnitPublic (\<lambda>s. if s = ''2025-03-10'' then Some (march10 0 0) else None)
        now [] deckStore ''u1'' (Some ''2025-03-10'') (Some t) =
         [withRemaining [] deckArea 2]"
proof -
  have w: "periodWindow (march10 0 0) t =
     (at_date (march10 0 0) 12 0 0 0, at_date (march10 0 0) 17 29 59 999, AFTERNOON)"
    by (simp add: periodWindow_def getPeriodFromHM_def assms(3))
  have b: "\<And>x y ps. findBlocks deckStore ''u1'' x y ps = []"
    by (simp add: findBlocks_def deckStore_def)
  have g: "groupedInWindow deckStore (at_date (march10 0 0) 12 0 0 0)
                (at_date (march10 0 0) 17 29 59 999) =
           [\<lparr>g_areaId = Some ''a1'', sum_people = Some 6, sum_kids = Some 2\<rparr>]"
    by (simp add: groupedInWindow_def groupByAreaId_def deckStore_def booking_def march10_def
        at_date_def inWindow_def dateLe_def dayLess_def sameDay_def msOfDay_def countedStatus_def)
  have d: "''2025-03-10'' \<noteq> []" and u: "''u1'' \<noteq> []" by simp_all
  show ?thesis
    unfolding periodView_unfold[OF u d assms(1)]
    by (simp add: assms(2) w b g findActiveAreas_deck withAvailability_def
        withRemaining_def withResolvedPhoto_def deckArea_def usedMapOf_def orZeroInt_def)
qed

text \<open>
  Claim C3 at a concrete update. The reservation \<open>r1\<close> holds 8 of the 10 afternoon seats
  at 13:00. Sent again with the same party and the same time it passes, credited with
  its own 8 seats. Moved to 14:00, in the same unit, area, day and period, it is refused
  with 2 seats available and a credit of 0: the test named \<open>samePeriod\<close> compares the
  \<open>HH:mm\<close> strings, not the periods.
\<close>

theorem update_credit_lost_on_time_change:
  "getPeriodFromDate (march10 14 0) = getPeriodFromDate (march10 13 0) \<and>
   toYMD (march10 14 0) = toYMD (march10 13 0) \<and>
   enrichAndValidate (\<lambda>s. if s = ''2025-03-10'' then Some (march10 0 0) else None)
         (march10 9 0) [] deckStore ''PUT'' (Some ''r1'')
       (Some ''u1'') (Some ''a1'') 6 2 (Some (march10 13 0)) = Inr () \<and>
   enrichAndValidate (\<lambda>s. if s = ''2025-03-10'' then Some (march10 0 0) else None)
         (march10 9 0) [] deckStore ''PUT'' (Some ''r1'')
       (Some ''u1'') (Some ''a1'') 6 2 (Some (march10 14 0)) = Inl (AREA_NO_CAPACITY 2 0)"
proof -
  have p: "getPeriodFromDate (march10 14 0) = getPeriodFromDate (march10 13 0)"
    by (simp add: getPeriodFromDate_def march10_def EVENING_CUTOFF_MIN_def)
  have y: "toYMD (march10 14 0) = ''2025-03-10''" "toYMD (march10 13 0) = ''2025-03-10''"
    by code_simp+
  have h: "toHHmm (march10 14 0) = ''14:00''" "toHHmm (march10 13 0) = ''13:00''"
    by code_simp+
  have v: "isValidHHmm (Some ''14:00'')" "isValidHHmm (Some ''13:00'')"
    by (simp_all add: isValidHHmm_def isDigit_def)
  have c14: "clampToBusinessWindow ''14:00'' = AFTERNOON"
    by (simp add: clampToBusinessWindow_def Number_str_def isDigit_def digitVal_def
      nthOrUndefined_def orZero_def EVENING_CUTOFF_MIN_def)
  have l14: "listByUnitPublic (\<lambda>s. if s = ''2025-03-10'' then Some (march10 0 0) else None)
        (march10 9 0) [] deckStore ''u1''
               (Some ''2025-03-10'') (Some ''14:00'') = [withRemaining [] deckArea 2]"
    by (rule deck_afternoon_list[OF _ v(1) c14]) simp
  have l13: "listByUnitPublic (\<lambda>s. if s = ''2025-03-10'' then Some (march10 0 0) else None)
        (march10 9 0) [] deckStore ''u1''
               (Some ''2025-03-10'') (Some ''13:00'') = [withRemaining [] deckArea 2]"
    by (rule deck_afternoon_list[OF _ v(2) clamp_1300]) simp
  have f: "find (\<lambda>a. dto_id a = ''a1'') [withRemaining [] deckArea 2] =
             Some (withRemaining [] deckArea 2)"
    by (simp add: withRemaining_def withResolvedPhoto_def deckArea_def)
  have av: "available (withRemaining [] deckArea 2) = Some 2" by (simp add: withRemaining_def)
  have di: "dto_id (withRemaining [] deckArea 2) = ''a1''"
    by (simp add: withRemaining_def withResolvedPhoto_def deckArea_def)
  have pr: "find (\<lambda>r. res_id r = ''r1'') (reservations deckStore) =
              Some (booking ''r1'' 6 2 (march10 13 0) AWAITING_CHECKIN)"
    by (simp add: deckStore_def booking_def)
  have bk: "areaId (booking ''r1'' 6 2 (march10 13 0) AWAITING_CHECKIN) = Some ''a1''"
    "unitId (booking ''r1'' 6 2 (march10 13 0) AWAITING_CHECKIN) = Some ''u1''"
    "reservationDate (booking ''r1'' 6 2 (march10 13 0) AWAITING_CHECKIN) = march10 13 0"
    "people (booking ''r1'' 6 2 (march10 13 0) AWAITING_CHECKIN) = 6"
    "kids (booking ''r1'' 6 2 (march10 13 0) AWAITING_CHECKIN) = 2"
    by (simp_all add: booking_def)
  have same: "enrichAndValidate (\<lambda>s. if s = ''2025-03-10'' then Some (march10 0 0) else None)
        (march10 9 0) [] deckStore ''PUT'' (Some ''r1'')
       (Some ''u1'') (Some ''a1'') 6 2 (Some (march10 13 0)) = Inr ()"
    unfolding enrichAndValidate_def
    by (simp add: y h l13 f av di pr bk truthy_def strOrEmpty_def Let_def)
  have moved: "enrichAndValidate (\<lambda>s. if s = ''2025-03-10'' then Some (march10 0 0) else None)
        (march10 9 0) [] deckStore ''PUT'' (Some ''r1'')
       (Some ''u1'') (Some ''a1'') 6 2 (Some (march10 14 0)) = Inl (AREA_NO_CAPACITY 2 0)"
    unfolding enrichAndValidate_def
    by (simp add: y h l14 f av di pr bk truthy_def strOrEmpty_def Let_def)
  show ?thesis using p y same moved by simp
qed

section \<open>Bookings before noon\<close>

lemma postCheck_morning:
  assumes "units st = units oneSeatStore" and "areas st = areas oneSeatStore"
    and "blocks st = []"
    and "\<forall>r \<in> set (reservations st). reservationDate r = march10 11 0"
  shows "postCheck st onePersonMorning =
     Inr \<lparr>adm_people = 1, adm_kids = 0, adm_date = march10 11 0, adm_unitId = ''u1'',
          adm_areaId = ''a1'', adm_email = None, adm_phone = None\<rparr>"
proof -
  have f: "body_reservationDate onePersonMorning = Some (march10 11 0)"
    "body_unitId onePersonMorning = Some ''u1''" "body_areaId onePersonMorning = Some ''a1''"
    "body_people onePersonMorning = Some 1" "body_kids onePersonMorning = Some 0"
    "body_email onePersonMorning = None" "body_phone onePersonMorning = None"
    "fullName onePersonMorning = ''Rui Paz''"
    by (simp_all add: onePersonMorning_def onePerson_def)
  have e: "toLowerEmail None = None" "normPhone None = None"
    by (simp_all add: toLowerEmail_def normPhone_def trim_def toLowerCase_def)
  have b: "basicValid onePersonMorning"
    by (simp add: basicValid_def f trim_def isSpace_def orZeroInt_def truthy_def)
  have n: "\<not> contactHasActive st onePersonMorning"
    by (simp add: contactHasActive_def f e truthy_def)
  have u: "unitResolves st onePersonMorning"
    by (simp add: unitResolves_def f assms(1) oneSeatStore_def deckStore_def)
  have a: "areaResolves st onePersonMorning"
    by (simp add: areaResolves_def f assms(2) oneSeatStore_def deckArea_def)
  have k: "\<And>ps. \<not> blockedSpec st ''u1'' ''a1'' (march10 11 0) ps"
    by (simp add: blockedSpec_def assms(3))
  have p: "getPeriodFromDate (march10 11 0) = AFTERNOON"
    by (simp add: getPeriodFromDate_def march10_def)
  have w: "periodWindowDate (march10 11 0) =
             (at_date (march10 11 0) 12 0 0 0, at_date (march10 11 0) 17 29 59 999)"
    by (simp add: periodWindowDate_def p)
  have o: "\<not> dateLe (at_date (march10 11 0) 12 0 0 0) (march10 11 0)"
    by (simp add: dateLe_def dayLess_def sameDay_def msOfDay_def at_date_def march10_def)
  have "filter (\<lambda>r. areaId r = Some ''a1'' \<and>
                      (status r = AWAITING_CHECKIN \<or> status r = CHECKED_IN) \<and>
                      dateLe (at_date (march10 11 0) 12 0 0 0) (reservationDate r) \<and>
                      dateLe (reservationDate r) (at_date (march10 11 0) 17 29 59 999))
               (reservations st) = []"
    using assms(4) o by (simp add: filter_empty_conv)
  then have us: "usedSpec st ''a1'' (at_date (march10 11 0) 12 0 0 0)
                   (at_date (march10 11 0) 17 29 59 999) = 0"
    by (simp add: usedSpec_def)
  have c: "periodCapacity st ''a1'' AFTERNOON = 1"
    by (simp add: periodCapacity_def assms(2) oneSeatStore_def deckArea_def orZeroInt_def)
  have r: "remainingFor st ''a1'' (march10 11 0) = 1"
    by (simp add: remainingFor_def p w us c)
  have q: "requestedSeats onePersonMorning = 1"
    by (simp add: requestedSeats_def f orZeroInt_def)
  show ?thesis
    unfolding postCheck_cascade
    by (simp add: b n u a k r q f e strOrEmpty_def orZeroInt_def)
qed

text \<open>
  Claim C5 at concrete stores. In the store of the example the checked-in party of 4 at
  10:00 is classified AFTERNOON, by both classifiers, and the afternoon total of its area
  and day is the 8 of the 13:00 party alone: a query for 10:00 reports 2 of the 10 seats
  where the claim gives 0. On the write path the same gap lets two bookings of one
  person at 11:00, served one after the other, both pass the test against a single
  afternoon seat: the first booking is stored and never seen by the second.
\<close>

theorem prenoon_bookings_not_counted:
  "getPeriodFromDate (march10 10 0) = AFTERNOON \<and>
   clampToBusinessWindow ''10:00'' = AFTERNOON \<and>
   periodWindow (march10 0 0) ''10:00'' =
     (at_date (march10 0 0) 12 0 0 0, at_date (march10 0 0) 17 29 59 999, AFTERNOON) \<and>
   usedMapOf (groupedInWindow deckStore (at_date (march10 0 0) 12 0 0 0)
                (at_date (march10 0 0) 17 29 59 999)) ''a1'' = Some 8 \<and>
   map remaining
     (listByUnitPublic (\<lambda>s. if s = ''2025-03-10'' then Some (march10 0 0) else None)
        (march10 9 0) [] deckStore ''u1'' (Some ''2025-03-10'') (Some ''10:00'')) = [Some 2] \<and>
   periodCapacity oneSeatStore ''a1'' AFTERNOON = 1 \<and>
   getPeriodFromDate (march10 11 0) = AFTERNOON \<and>
   map admittedSize (fst (postAll oneSeatStore twoMorningCalls)) = [1, 1]"
proof -
  have p10: "getPeriodFromDate (march10 10 0) = AFTERNOON"
    by (simp add: getPeriodFromDate_def march10_def)
  have p11: "getPeriodFromDate (march10 11 0) = AFTERNOON"
    by (simp add: getPeriodFromDate_def march10_def)
  have c10: "clampToBusinessWindow ''10:00'' = AFTERNOON"
    by (simp add: clampToBusinessWindow_def Number_str_def isDigit_def digitVal_def
      nthOrUndefined_def orZero_def EVENING_CUTOFF_MIN_def)
  have v10: "isValidHHmm (Some ''10:00'')" by (simp add: isValidHHmm_def isDigit_def)
  have w: "periodWindow (march10 0 0) ''10:00'' =
     (at_date (march10 0 0) 12 0 0 0, at_date (march10 0 0) 17 29 59 999, AFTERNOON)"
    by (simp add: periodWindow_def getPeriodFromHM_def c10)
  have g: "groupedInWindow deckStore (at_date (march10 0 0) 12 0 0 0)
                (at_date (march10 0 0) 17 29 59 999) =
           [\<lparr>g_areaId = Some ''a1'', sum_people = Some 6, sum_kids = Some 2\<rparr>]"
    by (simp add: groupedInWindow_def groupByAreaId_def deckStore_def booking_def march10_def
        at_date_def inWindow_def dateLe_def dayLess_def sameDay_def msOfDay_def countedStatus_def)
  have u: "usedMapOf (groupedInWindow deckStore (at_date (march10 0 0) 12 0 0 0)
                (at_date (march10 0 0) 17 29 59 999)) ''a1'' = Some 8"
    unfolding g by (simp add: usedMapOf_def orZeroInt_def)
  have l: "map remaining
     (listByUnitPublic (\<lambda>s. if s = ''2025-03-10'' then Some (march10 0 0) else None)
        (march10 9 0) [] deckStore ''u1'' (Some ''2025-03-10'') (Some ''10:00'')) = [Some 2]"
    using deck_afternoon_list[of "''10:00''" "march10 9 0", OF _ v10 c10]
    by (simp add: withRemaining_def)
  have cap: "periodCapacity oneSeatStore ''a1'' AFTERNOON = 1"
    by (simp add: periodCapacity_def oneSeatStore_def deckArea_def orZeroInt_def)
  define adm where "adm = \<lparr>adm_people = 1, adm_kids = 0, adm_date = march10 11 0,
          adm_unitId = ''u1'', adm_areaId = ''a1'', adm_email = None, adm_phone = None\<rparr>"
  define row1 where "row1 = createReservation ''r1'' (\<lambda>i. 0) oneSeatStore adm"
  define st1 where "st1 = insertReservation row1 oneSeatStore"
  define row2 where "row2 = createReservation ''r2'' (\<lambda>i. 1 / 2) st1 adm"
  have c0: "postCheck oneSeatStore onePersonMorning = Inr adm"
    unfolding adm_def by (rule postCheck_morning) (simp_all add: oneSeatStore_def deckStore_def)
  have c1: "postCheck st1 onePersonMorning = Inr adm"
    unfolding adm_def
    by (rule postCheck_morning)
       (simp_all add: st1_def row1_def insertReservation_def createReservation_def adm_def
          oneSeatStore_def deckStore_def)
  have "postAll oneSeatStore twoMorningCalls = ([Inr row1, Inr row2], insertReservation row2 st1)"
    by (simp add: twoMorningCalls_def post_def c0 c1
        row1_def[symmetric] st1_def[symmetric] row2_def[symmetric] Let_def)
  then have a: "map admittedSize (fst (postAll oneSeatStore twoMorningCalls)) = [1, 1]"
    by (simp add: admittedSize_def row1_def row2_def createReservation_def adm_def)
  show ?thesis using p10 c10 w u l cap p11 a by simp
qed

end
